theory Spec2Isabelle
  imports Main
begin

section \<open>Values\<close>

text \<open>
  The renderer of the report generator takes a value of type \<^verbatim>\<open>unknown\<close> and dispatches
  on its run-time shape. A value is a string, a number, a boolean, \<^verbatim>\<open>null\<close>,
  \<^verbatim>\<open>undefined\<close>, an array or a plain object.

  \<^item> A string is a \<^typ>\<open>string\<close>: the UTF-8 encoding of the program's string, which is
    taken to be well formed. A character of ASCII is one byte; any other character is a
    lead byte with its continuation bytes. Searching, splitting at \<^verbatim>\<open>[A-Z]\<close> and
    comparing work on the bytes as they do on the characters.
  \<^item> The program never computes with a number, it only prints it. A number that JSON text
    can denote is finite, given by the text \<^verbatim>\<open>String\<close> prints for it, or an infinity
    (the value of \<^verbatim>\<open>1e400\<close>).
  \<^item> An object is the list of its own properties in the order of their creation; the
    keys of an object are distinct. What \<^verbatim>\<open>Object.entries\<close> returns is computed from
    that list by \<open>Object_entries\<close> below.
  \<^item> What the engine decides and the program does not is a parameter, the record
    \<open>engine\<close>: the text it prints for a built-in function, its case mappings, and the
    depth of nested calls that its stack holds.
\<close>

datatype number = Finite string | PlusInfinity | MinusInfinity

datatype json =
    JStr string
  | JNum number
  | JBool bool
  | JNull
  | JUndef
  | JArr "json list"
  | JObj "(string \<times> json) list"

fun isArray :: "json \<Rightarrow> bool" where
  "isArray (JArr xs) = True"
| "isArray v = False"

fun isObject :: "json \<Rightarrow> bool" where
  "isObject (JObj es) = True"
| "isObject v = False"

fun isPrimitive :: "json \<Rightarrow> bool" where
  "isPrimitive (JStr s) = True"
| "isPrimitive (JNum n) = True"
| "isPrimitive (JBool b) = True"
| "isPrimitive v = False"

section \<open>Sequences from values\<close>

fun ensureArray :: "json \<Rightarrow> json list" where
  "ensureArray (JArr xs) = xs"
| "ensureArray JNull = []"
| "ensureArray JUndef = []"
| "ensureArray v = [v]"

section \<open>Strings\<close>

text \<open>The characters of a string: a lead byte takes the continuation bytes after it.\<close>

definition isLead :: "char \<Rightarrow> bool" where
  "isLead c = (192 \<le> (of_char c :: nat))"

definition isContinuation :: "char \<Rightarrow> bool" where
  "isContinuation c = (128 \<le> (of_char c :: nat) \<and> (of_char c :: nat) < 192)"

function chars :: "string \<Rightarrow> string list" where
  "chars [] = []"
| "chars (c # cs) =
     (if isLead c then (c # takeWhile isContinuation cs) # chars (dropWhile isContinuation cs)
      else [c] # chars cs)"
  by pat_completeness auto

termination chars
  by (relation "measure length") (auto simp: length_dropWhile_le less_Suc_eq_le)

text \<open>The characters of a text of ASCII.\<close>

definition units :: "string \<Rightarrow> string list" where
  "units s = map (\<lambda>c. [c]) s"

definition isAscii :: "string \<Rightarrow> bool" where
  "isAscii s = list_all (\<lambda>c. (of_char c :: nat) < 128) s"

definition isUpperAZ :: "char \<Rightarrow> bool" where
  "isUpperAZ c = (c \<in> set ''ABCDEFGHIJKLMNOPQRSTUVWXYZ'')"

text \<open>The case mappings on ASCII.\<close>

definition toUpperChar :: "char \<Rightarrow> char" where
  "toUpperChar c =
     (case map_of (zip ''abcdefghijklmnopqrstuvwxyz'' ''ABCDEFGHIJKLMNOPQRSTUVWXYZ'') c of
        Some u \<Rightarrow> u | None \<Rightarrow> c)"

definition toLowerChar :: "char \<Rightarrow> char" where
  "toLowerChar c =
     (case map_of (zip ''ABCDEFGHIJKLMNOPQRSTUVWXYZ'' ''abcdefghijklmnopqrstuvwxyz'') c of
        Some l \<Rightarrow> l | None \<Rightarrow> c)"

definition asciiUpper :: "string \<Rightarrow> string" where
  "asciiUpper s = map toUpperChar s"

definition asciiLower :: "string \<Rightarrow> string" where
  "asciiLower s = map toLowerChar s"

text \<open>
  The engine. \<^verbatim>\<open>toLowerCase\<close> and \<^verbatim>\<open>toUpperCase\<close> follow the case tables of Unicode,
  which the program does not hold; an engine is faithful when on texts of ASCII they are
  the mappings above.
\<close>

record engine =
  nativeText :: "string \<Rightarrow> string"
  toLowerCase :: "string \<Rightarrow> string"
  toUpperCase :: "string \<Rightarrow> string"
  maxNesting :: nat

definition caseFaithful :: "engine \<Rightarrow> bool" where
  "caseFaithful E =
     (\<forall>s. isAscii s \<longrightarrow> toLowerCase E s = asciiLower s \<and> toUpperCase E s = asciiUpper s)"

text \<open>
  White space and line terminators, each as a character: what \<^verbatim>\<open>\s\<close> and
  \<^verbatim>\<open>trim\<close> remove (tab, line feed, vertical tab, form feed, carriage return, space,
  U+00A0, U+1680, U+2000 to U+200A, U+2028, U+2029, U+202F, U+205F, U+3000, U+FEFF).
\<close>

definition whiteSpace :: "string list" where
  "whiteSpace =
     [[CHR 0x09], [CHR 0x0A], [CHR 0x0B], [CHR 0x0C], [CHR 0x0D], [CHR 0x20],
      [CHR 0xC2, CHR 0xA0], [CHR 0xE1, CHR 0x9A, CHR 0x80],
      [CHR 0xE2, CHR 0x80, CHR 0x80], [CHR 0xE2, CHR 0x80, CHR 0x81],
      [CHR 0xE2, CHR 0x80, CHR 0x82], [CHR 0xE2, CHR 0x80, CHR 0x83],
      [CHR 0xE2, CHR 0x80, CHR 0x84], [CHR 0xE2, CHR 0x80, CHR 0x85],
      [CHR 0xE2, CHR 0x80, CHR 0x86], [CHR 0xE2, CHR 0x80, CHR 0x87],
      [CHR 0xE2, CHR 0x80, CHR 0x88], [CHR 0xE2, CHR 0x80, CHR 0x89],
      [CHR 0xE2, CHR 0x80, CHR 0x8A], [CHR 0xE2, CHR 0x80, CHR 0xA8],
      [CHR 0xE2, CHR 0x80, CHR 0xA9], [CHR 0xE2, CHR 0x80, CHR 0xAF],
      [CHR 0xE2, CHR 0x81, CHR 0x9F], [CHR 0xE3, CHR 0x80, CHR 0x80],
      [CHR 0xEF, CHR 0xBB, CHR 0xBF]]"

definition isSpace :: "string \<Rightarrow> bool" where
  "isSpace ch = (ch \<in> set whiteSpace)"

definition isLineTerminator :: "string \<Rightarrow> bool" where
  "isLineTerminator ch =
     (ch \<in> set [[CHR 0x0A], [CHR 0x0D], [CHR 0xE2, CHR 0x80, CHR 0xA8],
                 [CHR 0xE2, CHR 0x80, CHR 0xA9]])"

definition trimChars :: "string list \<Rightarrow> string list" where
  "trimChars cs = rev (dropWhile isSpace (rev (dropWhile isSpace cs)))"

definition trim :: "string \<Rightarrow> string" where
  "trim s = concat (trimChars (chars s))"

fun startsWith :: "'a list \<Rightarrow> 'a list \<Rightarrow> bool" where
  "startsWith s [] = True"
| "startsWith [] (k # ks) = False"
| "startsWith (c # cs) (k # ks) = (c = k \<and> startsWith cs ks)"

fun includes_str :: "string \<Rightarrow> string \<Rightarrow> bool" where
  "includes_str [] k = (k = [])"
| "includes_str (c # cs) k = (startsWith (c # cs) k \<or> includes_str cs k)"

fun join :: "string \<Rightarrow> string list \<Rightarrow> string" where
  "join sep [] = []"
| "join sep [x] = x"
| "join sep (x # y # ys) = x @ sep @ join sep (y # ys)"

fun showNat :: "nat \<Rightarrow> string" where
  "showNat n =
     (if n < 10 then [''0123456789'' ! n]
      else showNat (n div 10) @ [''0123456789'' ! (n mod 10)])"

section \<open>Property order\<close>

text \<open>
  \<^verbatim>\<open>Object.entries\<close> and \<^verbatim>\<open>JSON.stringify\<close> enumerate the own properties of an
  object in the order of the language: first the keys that are array indices (the
  canonical decimal text of an integer below \<open>2\<^sup>3\<^sup>2 - 1\<close>) in ascending numeric order,
  then all other keys in the order of their creation.
\<close>

definition isDigit :: "char \<Rightarrow> bool" where
  "isDigit c = (c \<in> set ''0123456789'')"

definition digitValue :: "char \<Rightarrow> nat" where
  "digitValue c = of_char c - 48"

definition decimalValue :: "string \<Rightarrow> nat" where
  "decimalValue s = fold (\<lambda>c n. 10 * n + digitValue c) s 0"

definition isArrayIndex :: "string \<Rightarrow> bool" where
  "isArrayIndex k =
     (k \<noteq> [] \<and> list_all isDigit k \<and> (k = ''0'' \<or> hd k \<noteq> CHR ''0'')
      \<and> decimalValue k < 4294967295)"

definition Object_entries :: "(string \<times> 'a) list \<Rightarrow> (string \<times> 'a) list" where
  "Object_entries props =
     sort_key (\<lambda>e. decimalValue (fst e)) (filter (\<lambda>e. isArrayIndex (fst e)) props)
     @ filter (\<lambda>e. \<not> isArrayIndex (fst e)) props"

section \<open>Display strings\<close>

text \<open>
  \<^verbatim>\<open>String(n)\<close> and \<^verbatim>\<open>JSON.stringify(n)\<close> on a number: they differ on the
  infinities.
\<close>

fun String_number :: "number \<Rightarrow> string" where
  "String_number (Finite s) = s"
| "String_number PlusInfinity = ''Infinity''"
| "String_number MinusInfinity = ''-Infinity''"

fun JSON_number :: "number \<Rightarrow> string" where
  "JSON_number (Finite s) = s"
| "JSON_number n = ''null''"

text \<open>
  \<^verbatim>\<open>JSON.stringify\<close> on a string: the quoted text with the escapes of JSON.
\<close>

definition hexDigit :: "nat \<Rightarrow> char" where
  "hexDigit n = ''0123456789abcdef'' ! n"

definition escapeChar :: "char \<Rightarrow> string" where
  "escapeChar c =
     (if c = CHR 0x22 then [CHR 0x5C, CHR 0x22]
      else if c = CHR 0x5C then [CHR 0x5C, CHR 0x5C]
      else if c = CHR 0x08 then [CHR 0x5C, CHR ''b'']
      else if c = CHR 0x0C then [CHR 0x5C, CHR ''f'']
      else if c = CHR 0x0A then [CHR 0x5C, CHR ''n'']
      else if c = CHR 0x0D then [CHR 0x5C, CHR ''r'']
      else if c = CHR 0x09 then [CHR 0x5C, CHR ''t'']
      else if (of_char c :: nat) < 32
        then [CHR 0x5C, CHR ''u'', CHR ''0'', CHR ''0'',
              hexDigit (of_char c div 16), hexDigit (of_char c mod 16)]
      else [c])"

definition quote :: "string \<Rightarrow> string" where
  "quote s = [CHR 0x22] @ concat (map escapeChar s) @ [CHR 0x22]"

text \<open>
  \<^verbatim>\<open>JSON.stringify\<close> on a value inside an array or an object: \<^verbatim>\<open>undefined\<close> prints
  as \<^verbatim>\<open>null\<close> in an array, and a property whose value is \<^verbatim>\<open>undefined\<close> is left
  out of an object. The program calls it on arrays and objects only.
\<close>

function JSON_stringify :: "json \<Rightarrow> string" where
  "JSON_stringify (JStr s) = quote s"
| "JSON_stringify (JNum n) = JSON_number n"
| "JSON_stringify (JBool b) = (if b then ''true'' else ''false'')"
| "JSON_stringify JNull = ''null''"
| "JSON_stringify JUndef = ''null''"
| "JSON_stringify (JArr xs) = ''['' @ join '','' (map JSON_stringify xs) @ '']''"
| "JSON_stringify (JObj props) =
     ''{'' @ join '',''
       (map (\<lambda>e. quote (fst e) @ '':'' @ JSON_stringify (snd e))
          (filter (\<lambda>e. snd e \<noteq> JUndef) (Object_entries props))) @ ''}''"
  by pat_completeness auto

lemma set_Object_entries: "set (Object_entries props) = set props"
  by (auto simp: Object_entries_def)

lemma size_snd_less: "e \<in> set props \<Longrightarrow> size (snd e) < Suc (size_list (size_prod (\<lambda>x. 0) size) props)"
proof -
  assume "e \<in> set props"
  then have "size_prod (\<lambda>x. 0) size e \<le> size_list (size_prod (\<lambda>x. 0) size) props"
    by (rule size_list_estimation') simp
  moreover have "size (snd e) < size_prod (\<lambda>x. 0) size e"
    by (cases e) simp
  ultimately show ?thesis
    by simp
qed

termination JSON_stringify
proof (relation "measure size")
  fix props :: "(string \<times> json) list" and e
  assume "e \<in> set (filter (\<lambda>e. snd e \<noteq> JUndef) (Object_entries props))"
  then have "e \<in> set props"
    by (simp add: set_Object_entries)
  then show "(snd e, JObj props) \<in> measure size"
    by (simp add: size_snd_less)
next
  fix xs :: "json list" and x
  assume "x \<in> set xs"
  then show "(x, JArr xs) \<in> measure size"
    by (induction xs) auto
qed simp

fun ensureString :: "json \<Rightarrow> string" where
  "ensureString (JStr s) = s"
| "ensureString JNull = []"
| "ensureString JUndef = []"
| "ensureString (JNum n) = String_number n"
| "ensureString (JBool b) = (if b then ''true'' else ''false'')"
| "ensureString v = JSON_stringify v"

section \<open>Key labels\<close>

definition specialCases :: "(string \<times> string) list" where
  "specialCases =
     [(''html_data'', ''HTML Data''),
      (''hazardId'', ''Hazard ID''),
      (''reportDate'', ''Report Date''),
      (''riskRating'', ''Risk Rating''),
      (''rootCauseAnalysis'', ''Root Cause Analysis''),
      (''riskAssessment'', ''Risk Assessment''),
      (''complianceReferences'', ''Compliance References''),
      (''imageAnalysis'', ''Image Analysis''),
      (''detectedHazards'', ''Detected Hazards''),
      (''overallEnvironment'', ''Overall Environment''),
      (''confidenceScore'', ''Confidence Score''),
      (''boundingBox'', ''Bounding Box''),
      (''hazardType'', ''Hazard Type''),
      (''potentialHarm'', ''Potential Harm''),
      (''riskLevel'', ''Risk Level''),
      (''responsiblePerson'', ''Responsible Person''),
      (''immediateAction'', ''Immediate Action'')]"

text \<open>
  \<^verbatim>\<open>specialCases\<close> is an object literal, so \<^verbatim>\<open>specialCases[key]\<close> also finds what
  the object inherits from \<^verbatim>\<open>Object.prototype\<close>: its methods, and under
  \<^verbatim>\<open>__proto__\<close> the prototype itself. None of these is a string and each is truthy.
\<close>

definition objectPrototypeNames :: "string list" where
  "objectPrototypeNames =
     [''constructor'', ''__defineGetter__'', ''__defineSetter__'', ''hasOwnProperty'',
      ''__lookupGetter__'', ''__lookupSetter__'', ''isPrototypeOf'',
      ''propertyIsEnumerable'', ''toString'', ''valueOf'', ''__proto__'',
      ''toLocaleString'']"

text \<open>
  What the formatter returns: a string, or the member of \<^verbatim>\<open>Object.prototype\<close> of the
  given name.
\<close>

datatype label = Text string | Inherited string

definition specialCases_get :: "string \<Rightarrow> label option" where
  "specialCases_get key =
     (case map_of specialCases key of
        Some l \<Rightarrow> Some (Text l)
      | None \<Rightarrow> if key \<in> set objectPrototypeNames then Some (Inherited key) else None)"

fun truthy :: "label option \<Rightarrow> bool" where
  "truthy None = False"
| "truthy (Some (Text s)) = (s \<noteq> [])"
| "truthy (Some (Inherited m)) = True"

text \<open>\<^verbatim>\<open>.replace(/([A-Z])/g, ' $1')\<close>\<close>

definition spaceBeforeCapitals :: "string \<Rightarrow> string" where
  "spaceBeforeCapitals s = concat (map (\<lambda>c. if isUpperAZ c then [CHR '' '', c] else [c]) s)"

text \<open>
  \<^verbatim>\<open>.replace(/^./, (str) => str.toUpperCase())\<close>: the dot matches one code unit that
  is no line terminator. A character of four bytes is two code units, the first a
  surrogate, which no case mapping changes.
\<close>

definition upperFirst :: "engine \<Rightarrow> string \<Rightarrow> string" where
  "upperFirst E s =
     (case chars s of
        [] \<Rightarrow> s
      | ch # rest \<Rightarrow>
          if isLineTerminator ch \<or> 4 \<le> length ch then s
          else toUpperCase E ch @ concat rest)"

definition camelToTitle :: "engine \<Rightarrow> string \<Rightarrow> string" where
  "camelToTitle E key = trim (upperFirst E (spaceBeforeCapitals key))"

definition formatKeyName :: "engine \<Rightarrow> string \<Rightarrow> label" where
  "formatKeyName E key =
     (if truthy (specialCases_get key)
      then (case specialCases_get key of Some l \<Rightarrow> l | None \<Rightarrow> Text (camelToTitle E key))
      else Text (camelToTitle E key))"

text \<open>
  A label inside a template literal is converted to a string. The text of a built-in
  function is left to the engine, which gives it for each name of
  \<open>objectPrototypeNames\<close>.
\<close>

fun interpolate :: "engine \<Rightarrow> label \<Rightarrow> string" where
  "interpolate E (Text s) = s"
| "interpolate E (Inherited m) = nativeText E m"

text \<open>
  An engine for the closed examples: the texts of V8, the case mappings on ASCII, which
  is all that the examples use, and a stack that holds 2999 levels.
\<close>

definition v8Text :: "string \<Rightarrow> string" where
  "v8Text m =
     (if m = ''__proto__'' then ''[object Object]''
      else ''function '' @ (if m = ''constructor'' then ''Object'' else m)
        @ ''() { [native code] }'')"

definition sampleEngine :: engine where
  "sampleEngine =
     \<lparr>nativeText = v8Text, toLowerCase = asciiLower, toUpperCase = asciiUpper,
      maxNesting = 2999\<rparr>"

section \<open>Highlighting\<close>

definition highlightKeys :: "string list" where
  "highlightKeys =
     [''title'', ''description'', ''hazard'', ''action'', ''risk'', ''severity'',
      ''category'', ''location'', ''immediateAction'', ''riskRating'']"

definition isHighlightKey :: "engine \<Rightarrow> string \<Rightarrow> bool" where
  "isHighlightKey E key =
     list_ex (\<lambda>k. includes_str (toLowerCase E key) (toLowerCase E k)) highlightKeys"

section \<open>Markup templates\<close>

definition emphasized :: "string \<Rightarrow> string" where
  \<open>emphasized displayValue =
     ''<p style="margin: 0; font-weight: 600; color: #111827; line-height: 1.6;">''
     @ displayValue
     @ ''</p>''\<close>

definition standard :: "string \<Rightarrow> string" where
  \<open>standard displayValue =
     ''<p style="margin: 0; color: #4b5563; line-height: 1.6;">''
     @ displayValue
     @ ''</p>''\<close>

definition noData :: "string" where
  \<open>noData =
     ''<p style="margin: 0; color: #9ca3af; font-style: italic;">No data available</p>''\<close>

definition bulletItem :: "string \<Rightarrow> string" where
  \<open>bulletItem itemText =
     ''<li style="margin-bottom: 6px; color: #4b5563;">''
     @ itemText
     @ ''</li>''\<close>

definition bulletList :: "string \<Rightarrow> string" where
  \<open>bulletList items =
     ''\<newline>      <ul style="padding-left: 20px; margin: 8px 0; line-height: 1.8;">\<newline>        ''
     @ items
     @ ''\<newline>      </ul>\<newline>    ''\<close>

definition cardStack :: "string \<Rightarrow> string" where
  \<open>cardStack cards =
     ''\<newline>    <div style="display: flex; flex-direction: column; gap: 12px; margin-top: 8px;">\<newline>      ''
     @ cards
     @ ''\<newline>    </div>\<newline>  ''\<close>

definition objectCard :: "string \<Rightarrow> string \<Rightarrow> string \<Rightarrow> string" where
  \<open>objectCard background ordinal body =
     ''\<newline>            <div style="padding: 15px; background-color: ''
     @ background
     @ ''; border: 1px solid #e5e7eb; border-radius: 6px;">\<newline>              <div style="margin-bottom: 8px; font-weight: 600; color: #6b7280; font-size: 13px;">Item ''
     @ ordinal
     @ ''</div>\<newline>              ''
     @ body
     @ ''\<newline>            </div>\<newline>          ''\<close>

definition plainCard :: "string \<Rightarrow> string" where
  \<open>plainCard body =
     ''<div style="padding: 10px; background-color: #f9fafb; border-radius: 4px;">''
     @ body
     @ ''</div>''\<close>

definition fieldStack :: "string \<Rightarrow> string" where
  \<open>fieldStack blocks =
     ''\<newline>    <div style="display: flex; flex-direction: column; gap: 12px;">\<newline>      ''
     @ blocks
     @ ''\<newline>    </div>\<newline>  ''\<close>

definition primitiveField :: "string \<Rightarrow> string \<Rightarrow> string" where
  \<open>primitiveField label body =
     ''\<newline>            <div>\<newline>              <p style="margin: 0 0 4px 0; color: #6b7280; font-size: 13px; text-transform: uppercase; letter-spacing: 0.5px; font-weight: 600;">''
     @ label
     @ ''</p>\<newline>              ''
     @ body
     @ ''\<newline>            </div>\<newline>          ''\<close>

definition arrayField :: "string \<Rightarrow> string \<Rightarrow> string" where
  \<open>arrayField label body =
     ''\<newline>            <div>\<newline>              <p style="margin: 0 0 8px 0; color: #111827; font-size: 15px; font-weight: 600;">''
     @ label
     @ ''</p>\<newline>              ''
     @ body
     @ ''\<newline>            </div>\<newline>          ''\<close>

definition objectField :: "string \<Rightarrow> string \<Rightarrow> string" where
  \<open>objectField label body =
     ''\<newline>            <div>\<newline>              <h3 style="margin: 0 0 12px 0; color: #111827; font-size: 16px; font-weight: 700; border-left: 4px solid #3b82f6; padding-left: 12px;">''
     @ label
     @ ''</h3>\<newline>              ''
     @ body
     @ ''\<newline>            </div>\<newline>          ''\<close>

definition subtitleLine :: "string \<Rightarrow> string" where
  \<open>subtitleLine reportSubtitle =
     ''<p style="color: #6b7280; font-size: 16px; margin: 0;">''
     @ reportSubtitle
     @ ''</p>''\<close>

definition heading :: "string \<Rightarrow> string" where
  \<open>heading reportTitle =
     ''<h1 style="color: #111827; font-size: 28px; font-weight: 700; margin: 0 0 10px 0;">''
     @ reportTitle
     @ ''</h1>''\<close>

definition page :: "string \<Rightarrow> string \<Rightarrow> string \<Rightarrow> string \<Rightarrow> string" where
  \<open>page reportTitle subtitle bodyContent today =
     ''\<newline>    <div style="font-family: 'Segoe UI', Tahoma, Geneva, Verdana, sans-serif; padding: 40px; color: #1f2937; max-width: 900px; margin: 0 auto; background-color: #ffffff;">\<newline>      \<newline>      <!-- Header -->\<newline>      <div style="border-bottom: 2px solid #e5e7eb; padding-bottom: 20px; margin-bottom: 30px;">\<newline>        ''
     @ heading reportTitle
     @ ''\<newline>        ''
     @ subtitle
     @ ''\<newline>      </div>\<newline>\<newline>      <!-- Content -->\<newline>      ''
     @ bodyContent
     @ ''\<newline>\<newline>      <!-- Footer -->\<newline>      <div style="margin-top: 50px; text-align: center; border-top: 1px solid #e5e7eb; padding-top: 20px;">\<newline>        <p style="color: #9ca3af; font-size: 12px;">Generated by AI Report Generator ''
     @ [CHR 0xE2, CHR 0x80, CHR 0xA2]
     @ '' ''
     @ today
     @ ''</p>\<newline>      </div>\<newline>    </div>\<newline>  ''\<close>

section \<open>Renderers\<close>

text \<open>
  The renderers give the string that a call returns. Whether the stack of the engine
  holds the calls is decided once, in the assembler, by \<open>renderNesting\<close> below.
\<close>

definition renderPrimitive :: "engine \<Rightarrow> json \<Rightarrow> string option \<Rightarrow> string" where
  "renderPrimitive E v key =
     (let displayValue = ensureString v;
          isHighlight = (case key of None \<Rightarrow> False | Some k \<Rightarrow> k \<noteq> [] \<and> isHighlightKey E k)
      in if isHighlight then emphasized displayValue else standard displayValue)"

definition cardBackground :: "nat \<Rightarrow> string" where
  "cardBackground depth = (if depth = 0 then ''#f9fafb'' else ''#ffffff'')"

function renderArray :: "engine \<Rightarrow> json list \<Rightarrow> string option \<Rightarrow> nat \<Rightarrow> string"
  and renderObject :: "engine \<Rightarrow> (string \<times> json) list \<Rightarrow> nat \<Rightarrow> string"
where
  "renderArray E arr key depth =
     (if length arr = 0 then noData
      else if list_all isPrimitive arr
        then bulletList (concat (map (\<lambda>item. bulletItem (ensureString item)) arr))
      else cardStack (concat (map (\<lambda>(index, item).
             (case item of
                JObj props \<Rightarrow>
                  objectCard (cardBackground depth) (showNat (index + 1))
                    (renderObject E props (depth + 1))
              | _ \<Rightarrow> plainCard (renderPrimitive E (JStr (ensureString item)) None)))
             (enumerate 0 arr))))"
| "renderObject E obj depth =
     (let entries = Object_entries obj in
      if length entries = 0 then noData
      else fieldStack (concat (filter (\<lambda>s. s \<noteq> []) (map (\<lambda>(key, v).
             if key = ''message'' \<or> key = ''html_data'' then []
             else let label = interpolate E (formatKeyName E key) in
               if isPrimitive v then primitiveField label (renderPrimitive E v (Some key))
               else (case v of
                  JArr xs \<Rightarrow> arrayField label (renderArray E (ensureArray v) (Some key) depth)
                | JObj props \<Rightarrow> objectField label (renderObject E props (depth + 1))
                | _ \<Rightarrow> []))
             entries))))"
  by pat_completeness auto

lemma size_element_less: "x \<in> set xs \<Longrightarrow> size x < Suc (size_list size xs)"
  by (induction xs) auto

lemma card_smaller: "(i, JObj props) \<in> set (enumerate n arr) \<Longrightarrow> size (JObj props) < size (JArr arr)"
proof -
  assume "(i, JObj props) \<in> set (enumerate n arr)"
  then have "i - n < length arr" and "arr ! (i - n) = JObj props"
    by (auto simp: in_set_enumerate_eq)
  then have "JObj props \<in> set arr"
    using nth_mem by fastforce
  then show ?thesis
    using size_element_less [of "JObj props" arr] by simp
qed

lemma field_smaller: "(k, v) \<in> set (Object_entries obj) \<Longrightarrow> size v < size (JObj obj)"
  using size_snd_less [of "(k, v)" obj] by (simp add: set_Object_entries)

termination renderArray
proof (relation "measure (\<lambda>x. case x of Inl (E, arr, key, depth) \<Rightarrow> size (JArr arr)
                                      | Inr (E, obj, depth) \<Rightarrow> size (JObj obj))", goal_cases)
  case 1
  show ?case by simp
next
  case (2 E arr key depth x xa y x7)
  then show ?case using card_smaller [of xa x7 0 arr] by simp
next
  case (3 E obj depth x xa xb y xc x6)
  then show ?case using field_smaller [of xb "JArr x6" obj] by simp
next
  case (4 E obj depth x xa xb y xc x7)
  then show ?case using field_smaller [of xb "JObj x7" obj] by simp
qed

section \<open>Document assembly\<close>

text \<open>
  Reading a property of \<^verbatim>\<open>null\<close> or \<^verbatim>\<open>undefined\<close> throws a
  \<^verbatim>\<open>TypeError\<close>; on any other value it gives the own property of that name, or
  \<^verbatim>\<open>undefined\<close>. The assembler reads \<^verbatim>\<open>title\<close> and \<^verbatim>\<open>hazardDetails\<close> only, which
  no prototype defines.
\<close>

datatype error = TypeError | RangeError

fun getProperty :: "json \<Rightarrow> string \<Rightarrow> error + json" where
  "getProperty JNull name = Inl TypeError"
| "getProperty JUndef name = Inl TypeError"
| "getProperty (JObj props) name = Inr (case map_of props name of Some v \<Rightarrow> v | None \<Rightarrow> JUndef)"
| "getProperty v name = Inr JUndef"

text \<open>\<^verbatim>\<open>typeof v === 'object' && v !== null\<close>\<close>

fun isNonNullObject :: "json \<Rightarrow> bool" where
  "isNonNullObject (JArr xs) = True"
| "isNonNullObject (JObj props) = True"
| "isNonNullObject v = False"

text \<open>The title and the subtitle of the report, from the default title.\<close>

definition extractTitles :: "json \<Rightarrow> string \<Rightarrow> error + (string \<times> string)" where
  "extractTitles data title =
     (if isObject data then
        (case getProperty data ''title'' of
           Inl e \<Rightarrow> Inl e
         | Inr t \<Rightarrow>
             let reportTitle = (case t of JStr s \<Rightarrow> s | _ \<Rightarrow> title) in
             (case getProperty data ''hazardDetails'' of
                Inl e \<Rightarrow> Inl e
              | Inr hazardDetails \<Rightarrow>
                  if isNonNullObject hazardDetails then
                    (case getProperty hazardDetails ''title'' of
                       Inl e \<Rightarrow> Inl e
                     | Inr st \<Rightarrow> Inr (reportTitle, (case st of JStr s \<Rightarrow> s | _ \<Rightarrow> [])))
                  else Inr (reportTitle, [])))
      else Inr (title, []))"

definition bodyContent :: "engine \<Rightarrow> json \<Rightarrow> string" where
  "bodyContent E data =
     (case data of
        JObj props \<Rightarrow> renderObject E props 0
      | JArr xs \<Rightarrow> renderArray E (ensureArray data) None 0
      | _ \<Rightarrow> renderPrimitive E (JStr (ensureString data)) None)"

text \<open>
  The renderers call themselves once for every container that they enter inside a
  container, and \<^verbatim>\<open>JSON.stringify\<close> does the same inside an array that is an element
  of a mixed array; no depth guard stops them. \<open>renderNesting\<close> counts the levels of
  containers that the calls enter below the value itself: the value of a reserved key is
  not entered, nor are the elements of an array of primitives. The calls of a level stay
  on the stack while the next level runs, and the engine raises a \<^verbatim>\<open>RangeError\<close> when
  the levels are more than its stack holds.
\<close>

definition maximum :: "nat list \<Rightarrow> nat" where
  "maximum ns = foldr max ns 0"

function (sequential) stringifyNesting :: "json \<Rightarrow> nat" where
  "stringifyNesting (JArr xs) =
     maximum (map (\<lambda>x. if isNonNullObject x then Suc (stringifyNesting x) else 0) xs)"
| "stringifyNesting (JObj props) =
     maximum (map (\<lambda>e. if isNonNullObject (snd e) then Suc (stringifyNesting (snd e)) else 0)
       props)"
| "stringifyNesting v = 0"
  by pat_completeness auto

termination stringifyNesting
proof (relation "measure size")
  fix xs :: "json list" and x
  assume "x \<in> set xs"
  then show "(x, JArr xs) \<in> measure size"
    using size_element_less [of x xs] by simp
next
  fix props :: "(string \<times> json) list" and e
  assume "e \<in> set props"
  then show "(snd e, JObj props) \<in> measure size"
    by (simp add: size_snd_less)
qed simp

function (sequential) renderNesting :: "json \<Rightarrow> nat" where
  "renderNesting (JObj props) =
     maximum (map (\<lambda>e.
       if fst e = ''message'' \<or> fst e = ''html_data'' then 0
       else if isNonNullObject (snd e) then Suc (renderNesting (snd e))
       else 0) props)"
| "renderNesting (JArr arr) =
     (if list_all isPrimitive arr then 0
      else maximum (map (\<lambda>item.
        if isObject item then Suc (renderNesting item)
        else if isArray item then Suc (stringifyNesting item)
        else 0) arr))"
| "renderNesting v = 0"
  by pat_completeness auto

termination renderNesting
proof (relation "measure size")
  fix props :: "(string \<times> json) list" and e
  assume "e \<in> set props"
  then show "(snd e, JObj props) \<in> measure size"
    by (simp add: size_snd_less)
next
  fix arr :: "json list" and item
  assume "item \<in> set arr"
  then show "(item, JArr arr) \<in> measure size"
    using size_element_less [of item arr] by simp
qed simp

text \<open>
  \<open>today\<close> is the text of \<^verbatim>\<open>new Date().toLocaleDateString()\<close>; an omitted title is
  \<open>None\<close>.
\<close>

definition generateHtmlFromData ::
  "engine \<Rightarrow> string \<Rightarrow> json \<Rightarrow> string option \<Rightarrow> error + string" where
  "generateHtmlFromData E today data title =
     (case extractTitles data (case title of None \<Rightarrow> ''Report'' | Some t \<Rightarrow> t) of
        Inl e \<Rightarrow> Inl e
      | Inr (reportTitle, reportSubtitle) \<Rightarrow>
          if maxNesting E < renderNesting data then Inl RangeError
          else Inr (page reportTitle
                 (if reportSubtitle \<noteq> [] then subtitleLine reportSubtitle else [])
                 (bodyContent E data) today))"

text \<open>A mapping nested \<open>n\<close> levels deep.\<close>

fun nest :: "nat \<Rightarrow> json" where
  "nest 0 = JObj []"
| "nest (Suc n) = JObj [(''a'', nest n)]"

section \<open>Code fence of the webhook response\<close>

text \<open>
  The response handler matches \<^verbatim>\<open>/```html\s*([\s\S]*?)\s*```/\<close> against the markup
  string. The functions follow the backtracking matcher over the characters of the
  string: a greedy \<^verbatim>\<open>\s*\<close> takes white space as long as the rest of the pattern still
  matches, the lazy group takes as few characters as possible, and the match is tried at
  each position from the left. (The matcher of the engine steps by code unit; a character
  of two code units makes no difference, as no part of the pattern matches between
  them.)
\<close>

fun spacesThenFence :: "string list \<Rightarrow> bool" where
  "spacesThenFence [] = False"
| "spacesThenFence (c # cs) =
     (if isSpace c then spacesThenFence cs \<or> startsWith (c # cs) (units ''```'')
      else startsWith (c # cs) (units ''```''))"

fun lazyGroup :: "string list \<Rightarrow> string list option" where
  "lazyGroup [] = (if spacesThenFence [] then Some [] else None)"
| "lazyGroup (c # cs) =
     (if spacesThenFence (c # cs) then Some [] else map_option ((#) c) (lazyGroup cs))"

fun afterOpening :: "string list \<Rightarrow> string list option" where
  "afterOpening [] = lazyGroup []"
| "afterOpening (c # cs) =
     (if isSpace c
      then (case afterOpening cs of Some g \<Rightarrow> Some g | None \<Rightarrow> lazyGroup (c # cs))
      else lazyGroup (c # cs))"

definition matchAt :: "string list \<Rightarrow> string list option" where
  "matchAt s = (if startsWith s (units ''```html'') then afterOpening (drop 7 s) else None)"

fun htmlMatch :: "string list \<Rightarrow> string list option" where
  "htmlMatch [] = matchAt []"
| "htmlMatch (c # cs) = (case matchAt (c # cs) of Some g \<Rightarrow> Some g | None \<Rightarrow> htmlMatch cs)"

text \<open>
  The new value of \<^verbatim>\<open>data.html_data\<close>; an omitted field is \<open>None\<close>. The captured group
  is kept as its characters, so its \<^verbatim>\<open>trim()\<close> is \<open>trimChars\<close>.
\<close>

fun stripHtmlFence :: "string option \<Rightarrow> string option" where
  "stripHtmlFence None = None"
| "stripHtmlFence (Some html_data) =
     (if html_data \<noteq> [] \<and> includes_str html_data ''```html''
      then (case htmlMatch (chars html_data) of
              Some g \<Rightarrow> if concat g \<noteq> [] then Some (concat (trimChars g)) else Some html_data
            | None \<Rightarrow> Some html_data)
      else Some html_data)"

section \<open>Entries and cards\<close>

text \<open>
  The function that \<^verbatim>\<open>renderObject\<close> maps over the entries of an object, and the
  one that \<^verbatim>\<open>renderArray\<close> maps over the indexed elements of a mixed array, under
  names of their own.
\<close>

definition renderEntry :: "engine \<Rightarrow> nat \<Rightarrow> string \<times> json \<Rightarrow> string" where
  "renderEntry E depth =
     (\<lambda>(key, v).
        if key = ''message'' \<or> key = ''html_data'' then []
        else let label = interpolate E (formatKeyName E key) in
          if isPrimitive v then primitiveField label (renderPrimitive E v (Some key))
          else (case v of
             JArr xs \<Rightarrow> arrayField label (renderArray E (ensureArray v) (Some key) depth)
           | JObj props \<Rightarrow> objectField label (renderObject E props (depth + 1))
           | _ \<Rightarrow> []))"

definition renderCard :: "engine \<Rightarrow> nat \<Rightarrow> nat \<times> json \<Rightarrow> string" where
  "renderCard E depth =
     (\<lambda>(index, item).
        (case item of
           JObj props \<Rightarrow>
             objectCard (cardBackground depth) (showNat (index + 1))
               (renderObject E props (depth + 1))
         | _ \<Rightarrow> plainCard (renderPrimitive E (JStr (ensureString item)) None)))"

text \<open>An entry with a reserved key or an absent value.\<close>

definition producesNothing :: "string \<times> json \<Rightarrow> bool" where
  "producesNothing e = (fst e = ''message'' \<or> fst e = ''html_data'' \<or> snd e = JNull \<or> snd e = JUndef)"

section \<open>The key label as the specification words it\<close>

text \<open>
  The label of a key in the words of the specification: the entry of the table on a hit;
  on a miss the key with a space before every capital that is not its first character,
  its first character in upper case, trimmed.
\<close>

fun spaceBeforeInnerCapitals :: "string \<Rightarrow> string" where
  "spaceBeforeInnerCapitals [] = []"
| "spaceBeforeInnerCapitals (c # cs) = c # spaceBeforeCapitals cs"

definition upperFirstChar :: "engine \<Rightarrow> string \<Rightarrow> string" where
  "upperFirstChar E s =
     (case chars s of [] \<Rightarrow> s | ch # rest \<Rightarrow> toUpperCase E ch @ concat rest)"

definition camelToTitle_spec :: "engine \<Rightarrow> string \<Rightarrow> string" where
  "camelToTitle_spec E key = trim (upperFirstChar E (spaceBeforeInnerCapitals key))"

definition formatKeyName_spec :: "engine \<Rightarrow> string \<Rightarrow> string" where
  "formatKeyName_spec E key =
     (case map_of specialCases key of Some l \<Rightarrow> l | None \<Rightarrow> camelToTitle_spec E key)"

section \<open>Reserved keys\<close>

text \<open>
  The two keys that \<^verbatim>\<open>renderObject\<close> skips, and an entry with the value of a
  reserved key replaced.
\<close>

definition isReservedKey :: "string \<Rightarrow> bool" where
  "isReservedKey key = (key = ''message'' \<or> key = ''html_data'')"

definition overwriteReserved :: "json \<Rightarrow> string \<times> json \<Rightarrow> string \<times> json" where
  "overwriteReserved w e = (if isReservedKey (fst e) then (fst e, w) else e)"

section \<open>Fenced markup\<close>

text \<open>
  \<open>trimEnd\<close> removes trailing white space from a list of characters. A text is free of
  fences when, followed by the closing fence, it has three backticks in a row at none of
  its own positions.
\<close>

definition trimEnd :: "string list \<Rightarrow> string list" where
  "trimEnd cs = rev (dropWhile isSpace (rev cs))"

definition fenceFreeChars :: "string list \<Rightarrow> bool" where
  "fenceFreeChars cs =
     list_all (\<lambda>n. \<not> startsWith (drop n (cs @ units ''```'')) (units ''```'')) [0..<length cs]"

definition fenceFree :: "string \<Rightarrow> bool" where
  "fenceFree inner = fenceFreeChars (chars inner)"

section \<open>Characters and the engine\<close>

lemma concat_chars: "concat (chars s) = s"
  by (induction s rule: chars.induct) simp_all

lemma concat_units: "concat (units s) = s"
  by (induction s) (simp_all add: units_def)

lemma chars_ascii: "isAscii s \<Longrightarrow> chars s = units s"
  by (induction s) (simp_all add: isAscii_def units_def isLead_def)

lemma chars_append:
  "ys = [] \<or> \<not> isContinuation (hd ys) \<Longrightarrow> chars (xs @ ys) = chars xs @ chars ys"
proof (induction xs rule: chars.induct)
  case 1
  then show ?case by simp
next
  case (2 c cs)
  show ?case
  proof (cases "isLead c")
    case False
    with 2 show ?thesis by simp
  next
    case True
    have stop: "takeWhile isContinuation ys = []"
      using "2.prems" by (cases ys) auto
    show ?thesis
    proof (cases "\<forall>x \<in> set cs. isContinuation x")
      case all: True
      have keep: "dropWhile isContinuation ys = ys"
        using "2.prems" by (cases ys) auto
      from all have f1: "takeWhile isContinuation (cs @ ys) = cs"
        by (simp add: takeWhile_append2 stop)
      from all have f2: "dropWhile isContinuation (cs @ ys) = ys"
        by (simp add: dropWhile_append2 keep)
      from all have f3: "takeWhile isContinuation cs = cs"
        by (simp add: takeWhile_eq_all_conv)
      from all have f4: "dropWhile isContinuation cs = []"
        by (simp add: dropWhile_eq_Nil_conv)
      show ?thesis
        by (simp only: append_Cons chars.simps True if_True f1 f2 f3 f4 append.simps)
    next
      case False
      then obtain x where x: "x \<in> set cs" "\<not> isContinuation x"
        by blast
      then have "takeWhile isContinuation (cs @ ys) = takeWhile isContinuation cs"
        and "dropWhile isContinuation (cs @ ys) = dropWhile isContinuation cs @ ys"
        by (simp_all add: takeWhile_append1 dropWhile_append1)
      with True "2.IH"(1) "2.prems" show ?thesis
        by simp
    qed
  qed
qed

lemma sampleEngine_fields [simp]:
  "nativeText sampleEngine = v8Text"
  "toLowerCase sampleEngine = asciiLower"
  "toUpperCase sampleEngine = asciiUpper"
  "maxNesting sampleEngine = 2999"
  by (simp_all add: sampleEngine_def)

lemma caseFaithful_sampleEngine: "caseFaithful sampleEngine"
  by (simp add: caseFaithful_def)

lemma lower_ascii: "caseFaithful E \<Longrightarrow> isAscii s \<Longrightarrow> toLowerCase E s = asciiLower s"
  by (simp add: caseFaithful_def)

lemma upper_ascii: "caseFaithful E \<Longrightarrow> isAscii s \<Longrightarrow> toUpperCase E s = asciiUpper s"
  by (simp add: caseFaithful_def)


section \<open>The sequence coercion is idempotent\<close>

text \<open>
  C6. \<^verbatim>\<open>ensureArray\<close> returns an array unchanged, turns \<^verbatim>\<open>null\<close> and
  \<^verbatim>\<open>undefined\<close> into the empty array and wraps every other value into a one-element
  array; applying it to its own result changes nothing.
\<close>

theorem ensureArray_idempotent:
  "ensureArray (JArr (ensureArray x)) = ensureArray x
   \<and> ensureArray (JArr xs) = xs
   \<and> ensureArray JNull = []
   \<and> ensureArray JUndef = []
   \<and> (isArray x \<or> x = JNull \<or> x = JUndef \<or> ensureArray x = [x])"
  by (cases x) simp_all

theorem ensureArray_idempotent_witness:
  "ensureArray (JArr (ensureArray (JNum (Finite ''7'')))) = [JNum (Finite ''7'')]
   \<and> ensureArray (JStr ''a'') = [JStr ''a'']
   \<and> ensureArray (JObj []) = [JObj []]
   \<and> ensureArray (JArr [JNull, JBool True]) = [JNull, JBool True]"
  using ensureArray_idempotent [of "JNum (Finite ''7'')" "[JNull, JBool True]"]
    ensureArray_idempotent [of "JStr ''a''" "[]"]
    ensureArray_idempotent [of "JObj []" "[]"]
  by simp


section \<open>The renderers, unfolded once\<close>

declare renderArray.simps [simp del] renderObject.simps [simp del]

lemma renderObject_entries:
  "renderObject E obj depth =
     (if Object_entries obj = [] then noData
      else fieldStack (concat (filter (\<lambda>s. s \<noteq> []) (map (renderEntry E depth) (Object_entries obj)))))"
  by (simp add: renderObject.simps renderEntry_def Let_def)

lemma renderArray_cards:
  "renderArray E arr key depth =
     (if arr = [] then noData
      else if list_all isPrimitive arr
        then bulletList (concat (map (\<lambda>item. bulletItem (ensureString item)) arr))
      else cardStack (concat (map (renderCard E depth) (enumerate 0 arr))))"
  by (simp add: renderArray.simps renderCard_def)

lemma Object_entries_Nil [simp]: "Object_entries props = [] \<longleftrightarrow> props = []"
  using set_Object_entries [of props] by (metis set_empty)

lemma concat_filter_nonempty: "concat (filter (\<lambda>s. s \<noteq> []) xss) = concat xss"
  by (induction xss) auto


section \<open>Empty collections\<close>

text \<open>
  C2. The empty mapping and the empty sequence render the same placeholder node, the
  text "No data available" in a paragraph, and assembling either with a title gives the
  same document, whose body is that node and nothing else.
\<close>

theorem empty_placeholder:
  "renderObject E [] d = noData
   \<and> renderArray E [] key d' = noData
   \<and> bodyContent E (JObj []) = noData
   \<and> bodyContent E (JArr []) = noData
   \<and> generateHtmlFromData E today (JObj []) title = generateHtmlFromData E today (JArr []) title
   \<and> generateHtmlFromData E today (JObj []) (Some t) = Inr (page t [] noData today)
   \<and> includes_str noData ''No data available''"
  by (simp add: renderObject_entries renderArray_cards bodyContent_def generateHtmlFromData_def
      extractTitles_def noData_def maximum_def)

theorem empty_placeholder_witness:
  "renderObject sampleEngine [] 0 = noData
   \<and> renderArray sampleEngine [] None 0 = noData
   \<and> bodyContent sampleEngine (JObj []) = noData
   \<and> bodyContent sampleEngine (JArr []) = noData
   \<and> generateHtmlFromData sampleEngine ''11/3/2026'' (JObj []) (Some ''X'') =
       generateHtmlFromData sampleEngine ''11/3/2026'' (JArr []) (Some ''X'')
   \<and> generateHtmlFromData sampleEngine ''11/3/2026'' (JObj []) (Some ''X'') =
       Inr (page ''X'' [] noData ''11/3/2026'')
   \<and> includes_str noData ''No data available''"
  by (rule empty_placeholder)


section \<open>Substrings and highlighting\<close>

lemma startsWith_iff: "startsWith s k \<longleftrightarrow> (\<exists>b. s = k @ b)"
  by (induction s k rule: startsWith.induct) auto

lemma includes_str_iff: "includes_str s k \<longleftrightarrow> (\<exists>a b. s = a @ k @ b)"
proof (induction s)
  case Nil
  then show ?case by auto
next
  case (Cons c cs)
  have "(\<exists>a b. c # cs = a @ k @ b) \<longleftrightarrow> (\<exists>b. c # cs = k @ b) \<or> (\<exists>a b. cs = a @ k @ b)"
    by (auto simp: Cons_eq_append_conv)
  with Cons show ?case
    by (simp add: startsWith_iff)
qed

lemma includes_str_tail: "includes_str s (p @ q) \<Longrightarrow> includes_str s q"
proof -
  assume "includes_str s (p @ q)"
  then obtain a b where "s = (a @ p) @ q @ b"
    by (auto simp: includes_str_iff)
  then show ?thesis
    unfolding includes_str_iff by blast
qed

lemma highlightKeys_ascii: "list_all isAscii highlightKeys"
  by (simp add: highlightKeys_def isAscii_def)

lemma highlightKeys_lower:
  assumes "caseFaithful E"
  shows "map (toLowerCase E) highlightKeys =
     [''title'', ''description'', ''hazard'', ''action'', ''risk'', ''severity'',
      ''category'', ''location'', ''immediateaction'', ''riskrating'']"
proof -
  have "map (toLowerCase E) highlightKeys = map asciiLower highlightKeys"
    using highlightKeys_ascii lower_ascii [OF assms] by (simp add: list_all_iff)
  also have "\<dots> =
     [''title'', ''description'', ''hazard'', ''action'', ''risk'', ''severity'',
      ''category'', ''location'', ''immediateaction'', ''riskrating'']"
    by (simp add: highlightKeys_def asciiLower_def toLowerChar_def)
  finally show ?thesis .
qed

lemma isHighlightKey_lower:
  "isHighlightKey E key =
     list_ex (includes_str (toLowerCase E key)) (map (toLowerCase E) highlightKeys)"
  by (simp add: isHighlightKey_def list_ex_iff)

lemma isHighlightKey_substrings:
  assumes "caseFaithful E"
  shows "isHighlightKey E key =
     list_ex (includes_str (toLowerCase E key))
       [''title'', ''description'', ''hazard'', ''action'', ''risk'', ''severity'',
        ''category'', ''location'']"
proof -
  have a: "includes_str s ''immediateaction'' \<Longrightarrow> includes_str s ''action''" for s
    using includes_str_tail [of s "''immediate''" "''action''"] by simp
  have "includes_str s ''riskrating'' \<Longrightarrow> \<exists>x y. s = x @ ''risk'' @ y" for s
    unfolding includes_str_iff by fastforce
  then have r: "includes_str s ''riskrating'' \<Longrightarrow> includes_str s ''risk''" for s
    unfolding includes_str_iff [of s "''risk''"] .
  show ?thesis
    unfolding isHighlightKey_lower highlightKeys_lower [OF assms] list_ex_Cons_iff list_ex_Nil_iff
    using a r by blast
qed

lemma isHighlightKey_Nil: "caseFaithful E \<Longrightarrow> \<not> isHighlightKey E []"
proof -
  assume f: "caseFaithful E"
  have "toLowerCase E [] = []"
    using lower_ascii [OF f, of "[]"] by (simp add: isAscii_def asciiLower_def)
  then show ?thesis
    unfolding isHighlightKey_substrings [OF f] by simp
qed

lemma renderPrimitive_Some:
  "caseFaithful E \<Longrightarrow>
   renderPrimitive E v (Some key) =
     (if isHighlightKey E key then emphasized (ensureString v) else standard (ensureString v))"
  using isHighlightKey_Nil by (auto simp: renderPrimitive_def Let_def)

lemma isHighlightKey_ascii:
  "caseFaithful E \<Longrightarrow> isAscii key \<Longrightarrow>
   isHighlightKey E key =
     list_ex (includes_str (asciiLower key))
       [''title'', ''description'', ''hazard'', ''action'', ''risk'', ''severity'',
        ''category'', ''location'']"
  by (simp add: isHighlightKey_substrings lower_ascii)

text \<open>
  C8. For every engine whose case mappings are those of ASCII on texts of ASCII, a
  primitive value rendered with its key is the paragraph of weight 600 and colour
  \<^verbatim>\<open>#111827\<close> around its display string when the lower-case key contains one of the
  salience substrings, and the paragraph of colour \<^verbatim>\<open>#4b5563\<close> without a weight
  otherwise; the key \<^verbatim>\<open>riskRating\<close> is emphasized, the key \<^verbatim>\<open>notes\<close> is not.
\<close>

theorem highlight_styling:
  \<open>caseFaithful E \<Longrightarrow>
   renderPrimitive E v (Some key) =
     (if isHighlightKey E key
      then ''<p style="margin: 0; font-weight: 600; color: #111827; line-height: 1.6;">''
        @ ensureString v @ ''</p>''
      else ''<p style="margin: 0; color: #4b5563; line-height: 1.6;">''
        @ ensureString v @ ''</p>'')
   \<and> isHighlightKey E key =
     list_ex (includes_str (toLowerCase E key))
       [''title'', ''description'', ''hazard'', ''action'', ''risk'', ''severity'',
        ''category'', ''location'']
   \<and> renderPrimitive E v (Some ''riskRating'') =
       ''<p style="margin: 0; font-weight: 600; color: #111827; line-height: 1.6;">''
         @ ensureString v @ ''</p>''
   \<and> renderPrimitive E v (Some ''notes'') =
       ''<p style="margin: 0; color: #4b5563; line-height: 1.6;">''
         @ ensureString v @ ''</p>''\<close>
proof -
  assume f: "caseFaithful E"
  have "isAscii ''riskRating''" and "isAscii ''notes''"
    by (simp_all add: isAscii_def)
  moreover have "asciiLower ''riskRating'' = ''riskrating''" and "asciiLower ''notes'' = ''notes''"
    by (simp_all add: asciiLower_def toLowerChar_def)
  ultimately have "isHighlightKey E ''riskRating''" and "\<not> isHighlightKey E ''notes''"
    using f by (simp_all add: isHighlightKey_ascii)
  then show ?thesis
    using isHighlightKey_substrings [OF f, of key]
    by (simp add: renderPrimitive_Some [OF f] emphasized_def standard_def)
qed

theorem highlight_styling_witness:
  \<open>renderPrimitive sampleEngine (JStr ''High'') (Some ''severityLevel'') =
     ''<p style="margin: 0; font-weight: 600; color: #111827; line-height: 1.6;">High</p>''
   \<and> renderPrimitive sampleEngine (JNum (Finite ''3'')) (Some ''floor'') =
     ''<p style="margin: 0; color: #4b5563; line-height: 1.6;">3</p>''
   \<and> renderPrimitive sampleEngine (JBool True) (Some ''riskRating'') =
     ''<p style="margin: 0; font-weight: 600; color: #111827; line-height: 1.6;">true</p>''\<close>
proof -
  have "isAscii ''severityLevel''" and "isAscii ''floor''"
    by (simp_all add: isAscii_def)
  moreover have "asciiLower ''severityLevel'' = ''severitylevel''" and "asciiLower ''floor'' = ''floor''"
    by (simp_all add: asciiLower_def toLowerChar_def)
  ultimately have "isHighlightKey sampleEngine ''severityLevel''"
    and "\<not> isHighlightKey sampleEngine ''floor''"
    using caseFaithful_sampleEngine by (simp_all add: isHighlightKey_ascii)
  then show ?thesis
    using highlight_styling [OF caseFaithful_sampleEngine, of "JStr ''High''" "''severityLevel''"]
      highlight_styling [OF caseFaithful_sampleEngine, of "JNum (Finite ''3'')" "''floor''"]
      highlight_styling [OF caseFaithful_sampleEngine, of "JBool True" "''floor''"]
    by simp
qed


section \<open>The assembler and the call stack\<close>

lemma extractTitles_total: "\<exists>reportTitle reportSubtitle. extractTitles data title = Inr (reportTitle, reportSubtitle)"
proof (cases data)
  case (JObj props)
  show ?thesis
  proof (cases "map_of props ''hazardDetails''")
    case None
    with JObj show ?thesis by (simp add: extractTitles_def)
  next
    case (Some hazardDetails)
    with JObj show ?thesis by (cases hazardDetails) (simp_all add: extractTitles_def)
  qed
qed (simp_all add: extractTitles_def)

lemma isObject_nest: "isObject (nest n)"
  by (cases n) simp_all

lemma renderNesting_nest: "renderNesting (nest n) = n"
proof (induction n)
  case 0
  then show ?case by (simp add: maximum_def)
next
  case (Suc n)
  have "isNonNullObject (nest n)"
    by (cases n) simp_all
  with Suc show ?case
    by (simp add: maximum_def)
qed

lemma extractTitles_nest: "extractTitles (nest n) title = Inr (title, [])"
  by (cases n) (simp_all add: extractTitles_def)

text \<open>
  C1, as amended. On every value whose nesting the stack of the engine holds, and for
  every title, the assembler returns a markup string, the page around the body of the
  value: no read of a property reaches \<^verbatim>\<open>null\<close> or \<^verbatim>\<open>undefined\<close>, so no shape of
  the value makes it throw and the \<open>TypeError\<close> branch is never taken. On a value nested
  deeper than the stack holds, the recursion of the renderers, which no depth guard stops,
  ends in a \<open>RangeError\<close>; whatever the stack holds, the mapping nested one level deeper
  is such a value.
\<close>

theorem generateHtmlFromData_within_stack:
  "(renderNesting data \<le> maxNesting E \<longrightarrow>
      (\<exists>reportTitle reportSubtitle.
         generateHtmlFromData E today data title =
           Inr (page reportTitle
                  (if reportSubtitle \<noteq> [] then subtitleLine reportSubtitle else [])
                  (bodyContent E data) today)))
   \<and> (maxNesting E < renderNesting data \<longrightarrow>
        generateHtmlFromData E today data title = Inl RangeError)
   \<and> generateHtmlFromData E today data title \<noteq> Inl TypeError
   \<and> generateHtmlFromData E today (nest (Suc (maxNesting E))) title = Inl RangeError"
proof -
  obtain reportTitle reportSubtitle
    where t: "extractTitles data (case title of None \<Rightarrow> ''Report'' | Some t \<Rightarrow> t)
             = Inr (reportTitle, reportSubtitle)"
    using extractTitles_total by blast
  have "generateHtmlFromData E today data title =
       Inr (page reportTitle
              (if reportSubtitle \<noteq> [] then subtitleLine reportSubtitle else [])
              (bodyContent E data) today)"
    if "renderNesting data \<le> maxNesting E"
    using t that by (simp add: generateHtmlFromData_def)
  moreover have "generateHtmlFromData E today data title = Inl RangeError"
    if "maxNesting E < renderNesting data"
    using t that by (simp add: generateHtmlFromData_def)
  moreover have "generateHtmlFromData E today data title \<noteq> Inl TypeError"
    using t by (simp add: generateHtmlFromData_def)
  moreover have "generateHtmlFromData E today (nest (Suc (maxNesting E))) title = Inl RangeError"
    by (simp add: generateHtmlFromData_def extractTitles_nest renderNesting_nest
        del: renderNesting.simps nest.simps)
  ultimately show ?thesis
    by blast
qed

theorem generateHtmlFromData_within_stack_witness:
  "(\<exists>reportTitle reportSubtitle.
     generateHtmlFromData sampleEngine ''11/3/2026''
       (JObj [(''title'', JNum (Finite ''7'')), (''hazardDetails'', JNull),
              (''items'', JArr [JObj [(''a'', JArr [])]])]) None =
       Inr (page reportTitle
              (if reportSubtitle \<noteq> [] then subtitleLine reportSubtitle else [])
              (bodyContent sampleEngine
                 (JObj [(''title'', JNum (Finite ''7'')), (''hazardDetails'', JNull),
                        (''items'', JArr [JObj [(''a'', JArr [])]])]))
              ''11/3/2026''))
   \<and> generateHtmlFromData sampleEngine ''11/3/2026'' (nest 4000) (Some ''Deep'') = Inl RangeError"
proof -
  let ?data = "JObj [(''title'', JNum (Finite ''7'')), (''hazardDetails'', JNull),
                     (''items'', JArr [JObj [(''a'', JArr [])]])]"
  have "renderNesting ?data = 3"
    by (simp add: maximum_def)
  then have "renderNesting ?data \<le> maxNesting sampleEngine"
    by simp
  moreover have "maxNesting sampleEngine < renderNesting (nest 4000)"
    by (simp add: renderNesting_nest)
  ultimately show ?thesis
    using generateHtmlFromData_within_stack [of ?data sampleEngine "''11/3/2026''" None]
      generateHtmlFromData_within_stack [of "nest 4000" sampleEngine "''11/3/2026''" "Some ''Deep''"]
    by blast
qed

text \<open>
  C1 as stated fails: on the mapping nested 3000 levels deep, valid JSON, the assembler
  raises a \<open>RangeError\<close> instead of returning a string.
\<close>

theorem generateHtmlFromData_deep_counterexample:
  "generateHtmlFromData sampleEngine ''11/3/2026'' (nest 3000) None = Inl RangeError"
  by (simp add: generateHtmlFromData_def extractTitles_nest renderNesting_nest)


section \<open>Mappings without output\<close>

lemma renderEntry_nothing: "producesNothing e \<Longrightarrow> renderEntry E depth e = []"
  by (cases e) (auto simp: producesNothing_def renderEntry_def)

lemma fieldStack_not_noData: "fieldStack blocks \<noteq> noData"
  by (simp add: fieldStack_def noData_def)

text \<open>
  C4, as amended. A mapping with no entries renders the placeholder node, the same node
  as an empty sequence. A mapping that has entries, all of them with a reserved key or
  an absent value, renders the empty field container, which is not the placeholder.
\<close>

theorem empty_mapping_placeholder:
  "renderObject E [] depth = noData
   \<and> renderObject E [] depth = renderArray E [] key depth'
   \<and> (obj \<noteq> [] \<and> list_all producesNothing obj \<longrightarrow>
        renderObject E obj depth = fieldStack [] \<and> renderObject E obj depth \<noteq> noData)"
proof -
  have "concat (filter (\<lambda>s. s \<noteq> []) (map (renderEntry E depth) (Object_entries obj))) = []"
    if "list_all producesNothing obj"
  proof -
    from that have "\<forall>e \<in> set (Object_entries obj). renderEntry E depth e = []"
      by (simp add: set_Object_entries list_all_iff renderEntry_nothing)
    then show ?thesis
      by (simp add: filter_empty_conv)
  qed
  then show ?thesis
    by (simp add: renderObject_entries renderArray_cards fieldStack_not_noData)
qed

theorem empty_mapping_placeholder_witness:
  "renderObject sampleEngine [(''message'', JStr ''done''), (''notes'', JNull)] 0 = fieldStack []
   \<and> renderObject sampleEngine [(''message'', JStr ''done''), (''notes'', JNull)] 0 \<noteq> noData
   \<and> renderObject sampleEngine [] 0 = renderArray sampleEngine [] None 0"
proof -
  have "list_all producesNothing [(''message'', JStr ''done''), (''notes'', JNull)]"
    by (simp add: producesNothing_def)
  then show ?thesis
    using empty_mapping_placeholder
      [of sampleEngine 0 None 0 "[(''message'', JStr ''done''), (''notes'', JNull)]"]
    by auto
qed

text \<open>
  C4 as stated fails: a mapping whose only entry has the reserved key
  \<^verbatim>\<open>message\<close> does not render the placeholder node.
\<close>

theorem empty_mapping_placeholder_counterexample:
  "renderObject sampleEngine [(''message'', JStr ''hello'')] 0 \<noteq> noData"
  by (simp add: renderObject_entries fieldStack_not_noData)


section \<open>Labels of inherited names\<close>

lemma toUpperChar_upper: "isUpperAZ c \<Longrightarrow> toUpperChar c = c"
proof -
  let ?L = "''abcdefghijklmnopqrstuvwxyz''" and ?U = "''ABCDEFGHIJKLMNOPQRSTUVWXYZ''"
  assume "isUpperAZ c"
  moreover have "set ?U \<inter> set ?L = {}"
    by simp
  ultimately have notin: "c \<notin> set ?L"
    unfolding isUpperAZ_def by blast
  have z: "map fst (zip ?L ?U) = ?L"
    by simp
  have "c \<notin> set (map fst (zip ?L ?U))"
    unfolding z by (fact notin)
  then have "c \<notin> fst ` set (zip ?L ?U)"
    unfolding set_map .
  then have "map_of (zip ?L ?U) c = None"
    by (rule iffD2 [OF map_of_eq_None_iff])
  then show ?thesis
    unfolding toUpperChar_def by (simp only: option.case)
qed

lemma toUpperChar_LF: "toUpperChar (CHR 0x0A) = CHR 0x0A"
  by (simp add: toUpperChar_def)

lemma toUpperChar_CR: "toUpperChar (CHR 0x0D) = CHR 0x0D"
  by (simp add: toUpperChar_def)

lemma isLineTerminator_single: "isLineTerminator [c] \<longleftrightarrow> c = CHR 0x0A \<or> c = CHR 0x0D"
  by (auto simp: isLineTerminator_def)

lemma toUpperChar_line: "isLineTerminator [c] \<Longrightarrow> toUpperChar c = c"
  unfolding isLineTerminator_single using toUpperChar_LF toUpperChar_CR by blast

lemma toUpperChar_space: "toUpperChar (CHR '' '') = CHR '' ''"
  by (simp add: toUpperChar_def)

lemma space_isSpace: "isSpace '' ''"
  by (simp add: isSpace_def whiteSpace_def)

lemma space_not_line: "\<not> isLineTerminator '' ''"
  by (simp add: isLineTerminator_def)

lemma chars_single: "\<not> isLead c \<Longrightarrow> chars (c # s) = [c] # chars s"
  by simp

lemma ascii_not_lead: "(of_char c :: nat) < 128 \<Longrightarrow> \<not> isLead c"
  by (simp add: isLead_def)

lemma trimChars_space: "isSpace ch \<Longrightarrow> trimChars (ch # cs) = trimChars cs"
  by (simp add: trimChars_def)

lemma trim_space: "trim (CHR '' '' # s) = trim s"
proof -
  have "\<not> isLead (CHR '' '')"
    by (simp add: isLead_def)
  then show ?thesis
    using space_isSpace by (simp add: trim_def trimChars_space)
qed

lemma trimChars_plain:
  assumes "cs \<noteq> []" and "\<not> isSpace (hd cs)" and "\<not> isSpace (last cs)"
  shows "trimChars cs = cs"
proof -
  from assms have "dropWhile isSpace cs = cs"
    by (cases cs) simp_all
  moreover from assms have "dropWhile isSpace (rev cs) = rev cs"
    by (cases "rev cs") (simp_all add: hd_rev [symmetric])
  ultimately show ?thesis
    by (simp add: trimChars_def)
qed

lemma trim_ascii_plain:
  assumes "isAscii s" and "s \<noteq> []" and "\<not> isSpace [hd s]" and "\<not> isSpace [last s]"
  shows "trim s = s"
proof -
  from assms have "trimChars (units s) = units s"
    by (intro trimChars_plain) (simp_all add: units_def hd_map last_map)
  with assms(1) show ?thesis
    by (simp add: trim_def chars_ascii concat_units)
qed

lemma upperFirst_ascii:
  assumes "caseFaithful E" and "(of_char c :: nat) < 128"
  shows "upperFirst E (c # s) = (if isLineTerminator [c] then c # s else toUpperChar c # s)"
proof -
  have "isAscii [c]"
    using assms(2) by (simp add: isAscii_def)
  then have "toUpperCase E [c] = [toUpperChar c]"
    using upper_ascii [OF assms(1)] by (simp add: asciiUpper_def)
  then show ?thesis
    using assms(2) by (simp add: upperFirst_def ascii_not_lead concat_chars)
qed

lemma upperFirstChar_ascii:
  assumes "caseFaithful E" and "(of_char c :: nat) < 128"
  shows "upperFirstChar E (c # s) = toUpperChar c # s"
proof -
  have "isAscii [c]"
    using assms(2) by (simp add: isAscii_def)
  then have "toUpperCase E [c] = [toUpperChar c]"
    using upper_ascii [OF assms(1)] by (simp add: asciiUpper_def)
  then show ?thesis
    using assms(2) by (simp add: upperFirstChar_def ascii_not_lead concat_chars)
qed

text \<open>
  On a key of ASCII the generic transform of the program is the one that the
  specification words.
\<close>

lemma camelToTitle_refines:
  assumes f: "caseFaithful E" and a: "isAscii key"
  shows "camelToTitle E key = camelToTitle_spec E key"
proof (cases key)
  case Nil
  then show ?thesis
    by (simp add: camelToTitle_def camelToTitle_spec_def spaceBeforeCapitals_def
        upperFirst_def upperFirstChar_def)
next
  case (Cons c cs)
  with a have c: "(of_char c :: nat) < 128"
    by (simp add: isAscii_def)
  have sp: "(of_char (CHR '' '') :: nat) < 128"
    by simp
  show ?thesis
  proof (cases "isUpperAZ c")
    case True
    with Cons show ?thesis
      by (simp add: camelToTitle_def camelToTitle_spec_def spaceBeforeCapitals_def
          upperFirst_ascii [OF f sp] upperFirstChar_ascii [OF f c]
          toUpperChar_space toUpperChar_upper trim_space space_not_line)
  next
    case False
    with Cons show ?thesis
      by (simp add: camelToTitle_def camelToTitle_spec_def spaceBeforeCapitals_def
          upperFirst_ascii [OF f c] upperFirstChar_ascii [OF f c] toUpperChar_line)
  qed
qed

lemma specialCases_nonempty: "map_of specialCases key = Some l \<Longrightarrow> l \<noteq> []"
proof -
  assume "map_of specialCases key = Some l"
  then have "(key, l) \<in> set specialCases"
    by (rule map_of_SomeD)
  moreover have "\<forall>e \<in> set specialCases. snd e \<noteq> []"
    by (simp add: specialCases_def)
  ultimately show ?thesis
    by fastforce
qed

lemma formatKeyName_outside_prototype:
  "caseFaithful E \<Longrightarrow> isAscii key \<Longrightarrow> key \<notin> set objectPrototypeNames \<Longrightarrow>
   formatKeyName E key = Text (formatKeyName_spec E key)"
  by (cases "map_of specialCases key")
    (auto simp: formatKeyName_def formatKeyName_spec_def specialCases_get_def camelToTitle_refines
      dest: specialCases_nonempty)

lemma formatKeyName_hazardId: "formatKeyName E ''hazardId'' = Text ''Hazard ID''"
proof -
  have "map_of specialCases ''hazardId'' = Some ''Hazard ID''"
    by (simp add: specialCases_def)
  then show ?thesis
    by (simp add: formatKeyName_def specialCases_get_def)
qed

text \<open>
  The generic label of a key of ASCII that begins with a small letter and holds neither a
  capital nor white space: the key with its first letter raised.
\<close>

lemma camelToTitle_plain:
  assumes f: "caseFaithful E" and a: "isAscii (c # cs)"
    and caps: "spaceBeforeCapitals (c # cs) = c # cs"
    and line: "\<not> isLineTerminator [c]"
    and first: "\<not> isSpace [toUpperChar c]" "(of_char (toUpperChar c) :: nat) < 128"
    and final: "\<not> isSpace [last (toUpperChar c # cs)]"
  shows "camelToTitle E (c # cs) = toUpperChar c # cs"
proof -
  from a have c: "(of_char c :: nat) < 128" and cs: "isAscii cs"
    by (simp_all add: isAscii_def)
  have "upperFirst E (c # cs) = toUpperChar c # cs"
    using upperFirst_ascii [OF f c] line by simp
  moreover have "trim (toUpperChar c # cs) = toUpperChar c # cs"
    using first final cs by (intro trim_ascii_plain) (simp_all add: isAscii_def)
  ultimately show ?thesis
    by (simp add: camelToTitle_def caps)
qed

text \<open>
  C5. The formatter looks the key up with \<^verbatim>\<open>specialCases[key]\<close>, which also finds
  the members that the table inherits. On the key \<^verbatim>\<open>constructor\<close> it returns the
  inherited constructor function, where the specification, by its generic transform, gives
  the label "Constructor"; in the markup V8 prints the function as
  \<^verbatim>\<open>function Object() { [native code] }\<close>. On every key of ASCII that names no such
  member the formatter agrees with the specification
  (\<open>formatKeyName_outside_prototype\<close>), and \<^verbatim>\<open>hazardId\<close> is "Hazard ID"
  (\<open>formatKeyName_hazardId\<close>).
\<close>

theorem formatKeyName_constructor:
  "formatKeyName E ''constructor'' = Inherited ''constructor''
   \<and> formatKeyName_spec sampleEngine ''constructor'' = ''Constructor''
   \<and> interpolate sampleEngine (formatKeyName sampleEngine ''constructor'') =
       ''function Object() { [native code] }''"
proof -
  have miss: "map_of specialCases ''constructor'' = None"
    by (simp add: specialCases_def)
  have "''constructor'' \<in> set objectPrototypeNames"
    by (simp add: objectPrototypeNames_def)
  with miss have 1: "formatKeyName E ''constructor'' = Inherited ''constructor''" for E
    by (simp add: formatKeyName_def specialCases_get_def)
  have "spaceBeforeInnerCapitals ''constructor'' = ''constructor''"
    by (simp add: spaceBeforeCapitals_def isUpperAZ_def)
  moreover have "toUpperChar (CHR ''c'') = CHR ''C''"
    by (simp add: toUpperChar_def)
  moreover have "upperFirstChar sampleEngine ''constructor'' = toUpperChar (CHR ''c'') # ''onstructor''"
    by (rule upperFirstChar_ascii [OF caseFaithful_sampleEngine]) simp
  moreover have "trim ''Constructor'' = ''Constructor''"
    by (rule trim_ascii_plain) (simp_all add: isAscii_def isSpace_def whiteSpace_def)
  ultimately have "camelToTitle_spec sampleEngine ''constructor'' = ''Constructor''"
    by (simp add: camelToTitle_spec_def)
  with miss have 2: "formatKeyName_spec sampleEngine ''constructor'' = ''Constructor''"
    by (simp add: formatKeyName_spec_def)
  have 3: "v8Text ''constructor'' = ''function Object() { [native code] }''"
    by (simp add: v8Text_def)
  from 1 2 3 show ?thesis
    by simp
qed


section \<open>Reserved keys and the order of the fields\<close>

lemma renderEntry_reserved: "isReservedKey (fst e) \<Longrightarrow> renderEntry E depth e = []"
  by (cases e) (simp add: isReservedKey_def renderEntry_def)

lemma concat_renderEntry_skip:
  "concat (filter (\<lambda>s. s \<noteq> []) (map (renderEntry E depth) es)) =
   concat (map (renderEntry E depth) (filter (\<lambda>e. \<not> isReservedKey (fst e)) es))"
  by (induction es) (simp_all add: renderEntry_reserved)

lemma insort_key_map_fst:
  "(\<And>e. fst (f e) = fst e) \<Longrightarrow>
   insort_key (\<lambda>e. g (fst e)) (f x) (map f ys) = map f (insort_key (\<lambda>e. g (fst e)) x ys)"
  by (induction ys) simp_all

lemma sort_key_map_fst:
  "(\<And>e. fst (f e) = fst e) \<Longrightarrow>
   sort_key (\<lambda>e. g (fst e)) (map f xs) = map f (sort_key (\<lambda>e. g (fst e)) xs)"
  by (induction xs) (simp_all add: insort_key_map_fst)

lemma filter_map_fst:
  "(\<And>e. fst (f e) = fst e) \<Longrightarrow>
   filter (\<lambda>e. P (fst e)) (map f xs) = map f (filter (\<lambda>e. P (fst e)) xs)"
  by (induction xs) simp_all

lemma Object_entries_map:
  "(\<And>e. fst (f e) = fst e) \<Longrightarrow> Object_entries (map f props) = map f (Object_entries props)"
  unfolding Object_entries_def
  by (simp add: sort_key_map_fst [of f decimalValue] filter_map_fst [of f isArrayIndex]
      filter_map_fst [of f "\<lambda>k. \<not> isArrayIndex k"])

lemma Object_entries_plain:
  "list_all (\<lambda>e. \<not> isArrayIndex (fst e)) props \<Longrightarrow> Object_entries props = props"
  by (simp add: Object_entries_def list_all_iff filter_empty_conv)

lemma fst_overwriteReserved: "fst (overwriteReserved w e) = fst e"
  by (simp add: overwriteReserved_def)

lemma renderEntry_overwrite: "renderEntry E depth (overwriteReserved w e) = renderEntry E depth e"
  using renderEntry_reserved [of "(fst e, w)" E depth] renderEntry_reserved [of e E depth]
  by (simp add: overwriteReserved_def)

text \<open>
  C3, as amended. At every depth a mapping with entries renders the fields of its
  entries other than those keyed \<^verbatim>\<open>message\<close> and \<^verbatim>\<open>html_data\<close>, in the order of
  \<^verbatim>\<open>Object.entries\<close>; the values of the two reserved keys do not matter to the output;
  and the order of \<^verbatim>\<open>Object.entries\<close> is the insertion order when no key is an array
  index.
\<close>

theorem reserved_keys_skipped:
  "(obj \<noteq> [] \<longrightarrow>
      renderObject E obj depth =
        fieldStack (concat (map (renderEntry E depth)
          (filter (\<lambda>e. \<not> isReservedKey (fst e)) (Object_entries obj)))))
   \<and> renderObject E (map (overwriteReserved w) obj) depth = renderObject E obj depth
   \<and> (list_all (\<lambda>e. \<not> isArrayIndex (fst e)) obj \<longrightarrow> Object_entries obj = obj)"
proof (intro conjI impI)
  assume "obj \<noteq> []"
  then show "renderObject E obj depth =
        fieldStack (concat (map (renderEntry E depth)
          (filter (\<lambda>e. \<not> isReservedKey (fst e)) (Object_entries obj))))"
    by (simp add: renderObject_entries concat_renderEntry_skip)
next
  have "Object_entries (map (overwriteReserved w) obj) = map (overwriteReserved w) (Object_entries obj)"
    by (rule Object_entries_map) (rule fst_overwriteReserved)
  then show "renderObject E (map (overwriteReserved w) obj) depth = renderObject E obj depth"
    by (simp add: renderObject_entries comp_def renderEntry_overwrite)
next
  assume "list_all (\<lambda>e. \<not> isArrayIndex (fst e)) obj"
  then show "Object_entries obj = obj"
    by (rule Object_entries_plain)
qed

theorem reserved_keys_skipped_witness:
  "renderObject sampleEngine [(''message'', JStr ''done''), (''notes'', JStr ''n'')] 0 =
     fieldStack (concat (map (renderEntry sampleEngine 0) [(''notes'', JStr ''n'')]))
   \<and> renderObject sampleEngine [(''message'', JNull), (''notes'', JStr ''n'')] 0 =
       renderObject sampleEngine [(''message'', JStr ''done''), (''notes'', JStr ''n'')] 0
   \<and> Object_entries [(''message'', JStr ''done''), (''notes'', JStr ''n'')] =
       [(''message'', JStr ''done''), (''notes'', JStr ''n'')]"
proof -
  let ?obj = "[(''message'', JStr ''done''), (''notes'', JStr ''n'')]"
  have idx: "\<not> isArrayIndex ''message''" "\<not> isArrayIndex ''notes''"
    unfolding isArrayIndex_def by (simp_all add: isDigit_def)
  have res: "isReservedKey ''message''" "\<not> isReservedKey ''notes''"
    by (simp_all add: isReservedKey_def)
  have plain: "list_all (\<lambda>e. \<not> isArrayIndex (fst e)) ?obj"
    using idx by simp
  have ow: "map (overwriteReserved JNull) ?obj = [(''message'', JNull), (''notes'', JStr ''n'')]"
    using res by (simp add: overwriteReserved_def)
  from reserved_keys_skipped [of ?obj sampleEngine 0 JNull] plain
  have "renderObject sampleEngine ?obj 0 =
      fieldStack (concat (map (renderEntry sampleEngine 0)
        (filter (\<lambda>e. \<not> isReservedKey (fst e)) ?obj)))"
    and "renderObject sampleEngine (map (overwriteReserved JNull) ?obj) 0 = renderObject sampleEngine ?obj 0"
    and "Object_entries ?obj = ?obj"
    by simp_all
  then show ?thesis
    using res unfolding ow by simp
qed

lemma fieldStack_inject: "fieldStack a = fieldStack b \<longleftrightarrow> a = b"
  by (simp add: fieldStack_def)

lemma formatKeyName_1: "formatKeyName sampleEngine ''1'' = Text ''1''"
proof -
  have "map_of specialCases ''1'' = None"
    by (simp add: specialCases_def)
  moreover have "''1'' \<notin> set objectPrototypeNames"
    by (simp add: objectPrototypeNames_def)
  moreover have "toUpperChar (CHR ''1'') = CHR ''1''"
    by (simp add: toUpperChar_def)
  then have "camelToTitle sampleEngine ''1'' = ''1''"
    using camelToTitle_plain [OF caseFaithful_sampleEngine, of "CHR ''1''" "[]"]
    by (simp add: isAscii_def spaceBeforeCapitals_def isUpperAZ_def isLineTerminator_def
        isSpace_def whiteSpace_def)
  ultimately show ?thesis
    by (simp add: formatKeyName_def specialCases_get_def)
qed

lemma formatKeyName_b: "formatKeyName sampleEngine ''b'' = Text ''B''"
proof -
  have "map_of specialCases ''b'' = None"
    by (simp add: specialCases_def)
  moreover have "''b'' \<notin> set objectPrototypeNames"
    by (simp add: objectPrototypeNames_def)
  moreover have "toUpperChar (CHR ''b'') = CHR ''B''"
    by (simp add: toUpperChar_def)
  then have "camelToTitle sampleEngine ''b'' = ''B''"
    using camelToTitle_plain [OF caseFaithful_sampleEngine, of "CHR ''b''" "[]"]
    by (simp add: isAscii_def spaceBeforeCapitals_def isUpperAZ_def isLineTerminator_def
        isSpace_def whiteSpace_def)
  ultimately show ?thesis
    by (simp add: formatKeyName_def specialCases_get_def)
qed

lemma Object_entries_b1:
  "Object_entries [(''b'', JStr ''x''), (''1'', JStr ''y'')] = [(''1'', JStr ''y''), (''b'', JStr ''x'')]"
proof -
  have "isArrayIndex ''1''" and "\<not> isArrayIndex ''b''"
    unfolding isArrayIndex_def by (simp_all add: isDigit_def decimalValue_def digitValue_def)
  then show ?thesis
    by (simp add: Object_entries_def)
qed

text \<open>
  C3 as stated fails: in a mapping created with the key \<^verbatim>\<open>b\<close> before the key
  \<^verbatim>\<open>1\<close>, the field of \<^verbatim>\<open>1\<close> is rendered first, so the output is not the fields in
  insertion order.
\<close>

theorem insertion_order_counterexample:
  "Object_entries [(''b'', JStr ''x''), (''1'', JStr ''y'')] = [(''1'', JStr ''y''), (''b'', JStr ''x'')]
   \<and> renderObject sampleEngine [(''b'', JStr ''x''), (''1'', JStr ''y'')] 0 \<noteq>
       fieldStack (concat (map (renderEntry sampleEngine 0)
         (filter (\<lambda>e. \<not> isReservedKey (fst e)) [(''b'', JStr ''x''), (''1'', JStr ''y'')])))"
proof -
  have r: "\<not> isReservedKey ''b''" "\<not> isReservedKey ''1''"
    by (simp_all add: isReservedKey_def)
  have e1: "renderEntry sampleEngine 0 (''1'', JStr ''y'') = primitiveField ''1'' (renderPrimitive sampleEngine (JStr ''y'') (Some ''1''))"
    using r by (simp add: renderEntry_def isReservedKey_def formatKeyName_1 Let_def)
  have eb: "renderEntry sampleEngine 0 (''b'', JStr ''x'') = primitiveField ''B'' (renderPrimitive sampleEngine (JStr ''x'') (Some ''b''))"
    using r by (simp add: renderEntry_def isReservedKey_def formatKeyName_b Let_def)
  have "primitiveField ''1'' p @ primitiveField ''B'' q \<noteq> primitiveField ''B'' q @ primitiveField ''1'' p" for p q
    by (simp add: primitiveField_def)
  moreover have "primitiveField l p \<noteq> []" for l p
    by (simp add: primitiveField_def)
  ultimately show ?thesis
    using r by (simp add: Object_entries_b1 renderObject_entries fieldStack_inject e1 eb)
qed


section \<open>Mixed sequences\<close>

lemma renderPrimitive_None: "renderPrimitive E v None = standard (ensureString v)"
  by (simp add: renderPrimitive_def)

lemma renderCard_object:
  "renderCard E depth (i, JObj props) =
     objectCard (if depth = 0 then ''#f9fafb'' else ''#ffffff'') (showNat (i + 1))
       (renderObject E props (depth + 1))"
  by (simp add: renderCard_def cardBackground_def)

lemma renderCard_other:
  "\<not> isObject item \<Longrightarrow> renderCard E depth (i, item) = plainCard (standard (ensureString item))"
  by (cases item) (simp_all add: renderCard_def renderPrimitive_None)

text \<open>\<open>showNat\<close> prints a number in decimal.\<close>

lemma digitValue_digit: "k < 10 \<Longrightarrow> digitValue (''0123456789'' ! k) = k"
proof -
  assume "k < 10"
  then have "k \<in> {0, 1, 2, 3, 4, 5, 6, 7, 8, 9}"
    by auto
  then show ?thesis
    by (auto simp: digitValue_def)
qed

lemma decimalValue_snoc: "decimalValue (s @ [c]) = 10 * decimalValue s + digitValue c"
  by (simp add: decimalValue_def)

lemma decimalValue_showNat: "decimalValue (showNat n) = n"
proof (induction n rule: showNat.induct)
  case (1 n)
  show ?case
  proof (cases "n < 10")
    case True
    then have "showNat n = [''0123456789'' ! n]"
      by (subst showNat.simps) simp
    with True show ?thesis
      using digitValue_digit [of n] by (simp add: decimalValue_def)
  next
    case False
    then have "showNat n = showNat (n div 10) @ [''0123456789'' ! (n mod 10)]"
      by (subst showNat.simps) simp
    with False 1 show ?thesis
      using digitValue_digit [of "n mod 10"] by (simp add: decimalValue_snoc)
  qed
qed

text \<open>
  C7, as amended. A non-empty sequence whose elements are not all primitive renders as
  the card stack, the flex column that holds one block per element in order, and does not
  begin as the bulleted list does. The block of an object element at position \<open>i\<close> is
  the card with the label "Item" and the decimal number \<open>i + 1\<close>, around the mapping
  rendered at depth + 1; its background is \<^verbatim>\<open>#f9fafb\<close> at depth 0 and \<^verbatim>\<open>#ffffff\<close> at
  every other depth. The block of any other element has no label: it is the plain box
  around the paragraph of the standard style that holds the display string of the
  element.
\<close>

theorem card_stack:
  \<open>arr \<noteq> [] \<Longrightarrow> \<not> list_all isPrimitive arr \<Longrightarrow>
   renderArray E arr key depth =
       ''\<newline>    <div style="display: flex; flex-direction: column; gap: 12px; margin-top: 8px;">\<newline>      ''
       @ concat (map (renderCard E depth) (enumerate 0 arr))
       @ ''\<newline>    </div>\<newline>  ''
   \<and> length (map (renderCard E depth) (enumerate 0 arr)) = length arr
   \<and> \<not> startsWith (renderArray E arr key depth) ''\<newline>      <ul''
   \<and> (\<forall>i<length arr.
        renderCard E depth (i, arr ! i) =
          (case arr ! i of
             JObj props \<Rightarrow>
               ''\<newline>            <div style="padding: 15px; background-color: ''
               @ (if depth = 0 then ''#f9fafb'' else ''#ffffff'')
               @ ''; border: 1px solid #e5e7eb; border-radius: 6px;">\<newline>              <div style="margin-bottom: 8px; font-weight: 600; color: #6b7280; font-size: 13px;">Item ''
               @ showNat (i + 1)
               @ ''</div>\<newline>              ''
               @ renderObject E props (depth + 1)
               @ ''\<newline>            </div>\<newline>          ''
           | _ \<Rightarrow>
               ''<div style="padding: 10px; background-color: #f9fafb; border-radius: 4px;">''
               @ (''<p style="margin: 0; color: #4b5563; line-height: 1.6;">''
                 @ ensureString (arr ! i)
                 @ ''</p>'')
               @ ''</div>''))
   \<and> (\<forall>n. decimalValue (showNat n) = n)\<close>
proof (intro conjI allI impI)
  assume a: "arr \<noteq> []" "\<not> list_all isPrimitive arr"
  then have r: "renderArray E arr key depth = cardStack (concat (map (renderCard E depth) (enumerate 0 arr)))"
    by (simp add: renderArray_cards)
  then show \<open>renderArray E arr key depth =
       ''\<newline>    <div style="display: flex; flex-direction: column; gap: 12px; margin-top: 8px;">\<newline>      ''
       @ concat (map (renderCard E depth) (enumerate 0 arr))
       @ ''\<newline>    </div>\<newline>  ''\<close>
    by (simp add: cardStack_def)
  show "length (map (renderCard E depth) (enumerate 0 arr)) = length arr"
    by simp
  show \<open>\<not> startsWith (renderArray E arr key depth) ''\<newline>      <ul''\<close>
    unfolding r by (simp add: cardStack_def)
  show \<open>renderCard E depth (i, arr ! i) =
          (case arr ! i of
             JObj props \<Rightarrow>
               ''\<newline>            <div style="padding: 15px; background-color: ''
               @ (if depth = 0 then ''#f9fafb'' else ''#ffffff'')
               @ ''; border: 1px solid #e5e7eb; border-radius: 6px;">\<newline>              <div style="margin-bottom: 8px; font-weight: 600; color: #6b7280; font-size: 13px;">Item ''
               @ showNat (i + 1)
               @ ''</div>\<newline>              ''
               @ renderObject E props (depth + 1)
               @ ''\<newline>            </div>\<newline>          ''
           | _ \<Rightarrow>
               ''<div style="padding: 10px; background-color: #f9fafb; border-radius: 4px;">''
               @ (''<p style="margin: 0; color: #4b5563; line-height: 1.6;">''
                 @ ensureString (arr ! i)
                 @ ''</p>'')
               @ ''</div>'')\<close> for i
    by (cases "arr ! i")
      (simp_all add: renderCard_object renderCard_other objectCard_def plainCard_def standard_def
        del: ensureString.simps)
  show "decimalValue (showNat n) = n" for n
    by (rule decimalValue_showNat)
qed

theorem card_stack_witness:
  \<open>renderArray sampleEngine [JObj [], JStr ''a''] None 0 =
       ''\<newline>    <div style="display: flex; flex-direction: column; gap: 12px; margin-top: 8px;">\<newline>      ''
       @ (''\<newline>            <div style="padding: 15px; background-color: ''
         @ ''#f9fafb''
         @ ''; border: 1px solid #e5e7eb; border-radius: 6px;">\<newline>              <div style="margin-bottom: 8px; font-weight: 600; color: #6b7280; font-size: 13px;">Item ''
         @ ''1''
         @ ''</div>\<newline>              ''
         @ noData
         @ ''\<newline>            </div>\<newline>          ''
       @ ''<div style="padding: 10px; background-color: #f9fafb; border-radius: 4px;">''
         @ (''<p style="margin: 0; color: #4b5563; line-height: 1.6;">''
           @ ''a''
           @ ''</p>'')
         @ ''</div>'')
       @ ''\<newline>    </div>\<newline>  ''\<close>
proof -
  have "[JObj [], JStr ''a''] \<noteq> []" and "\<not> list_all isPrimitive [JObj [], JStr ''a'']"
    by simp_all
  note cs = card_stack [OF this, of sampleEngine None 0]
  have cards: "concat (map (renderCard sampleEngine 0) (enumerate 0 [JObj [], JStr ''a''])) =
      objectCard ''#f9fafb'' ''1'' noData @ plainCard (standard ''a'')"
    by (simp add: renderCard_object renderCard_other renderObject_entries enumerate_eq_zip upt_rec)
  show ?thesis
    using cs [THEN conjunct1] unfolding cards
    by (simp add: objectCard_def plainCard_def standard_def)
qed

lemma renderArray_mixed2:
  "renderArray sampleEngine [JObj [], JStr ''a''] None 0 =
     cardStack (objectCard ''#f9fafb'' ''1'' noData @ plainCard (standard ''a''))"
  by (simp add: renderArray_cards renderCard_object renderCard_other renderObject_entries enumerate_eq_zip upt_rec)

lemma renderArray_single:
  "renderArray sampleEngine [JObj []] None depth =
     cardStack (objectCard (cardBackground depth) ''1'' noData)"
  by (simp add: renderArray_cards renderCard_def renderObject_entries)

text \<open>
  C7 as stated fails: in the stack of a mapping and a string the second block carries no
  "Item 2", and the card of the same sequence differs between depth 0 and depth 2, two
  depths of the same parity.
\<close>

theorem card_stack_counterexample:
  "\<not> includes_str (renderArray sampleEngine [JObj [], JStr ''a''] None 0) ''Item 2''
   \<and> renderArray sampleEngine [JObj []] None 0 \<noteq> renderArray sampleEngine [JObj []] None 2"
proof -
  have "\<not> includes_str (cardStack (objectCard ''#f9fafb'' ''1'' noData @ plainCard (standard ''a''))) ''Item 2''"
    by (simp add: cardStack_def objectCard_def noData_def plainCard_def standard_def)
  moreover have "cardStack (objectCard (cardBackground 0) ''1'' noData)
      \<noteq> cardStack (objectCard (cardBackground 2) ''1'' noData)"
    by (simp add: cardStack_def objectCard_def cardBackground_def)
  ultimately show ?thesis
    unfolding renderArray_mixed2 renderArray_single by simp
qed


section \<open>The title of a mapping\<close>

lemma extractTitles_title:
  "map_of props ''title'' = Some (JStr s) \<Longrightarrow>
   \<exists>subtitle. extractTitles (JObj props) title = Inr (s, subtitle)"
proof (cases "map_of props ''hazardDetails''")
  case None
  assume "map_of props ''title'' = Some (JStr s)"
  with None show ?thesis by (simp add: extractTitles_def)
next
  case (Some hazardDetails)
  assume "map_of props ''title'' = Some (JStr s)"
  with Some show ?thesis by (cases hazardDetails) (simp_all add: extractTitles_def)
qed

lemma formatKeyName_title: "caseFaithful E \<Longrightarrow> formatKeyName E ''title'' = Text ''Title''"
proof -
  assume f: "caseFaithful E"
  have "map_of specialCases ''title'' = None"
    by (simp add: specialCases_def)
  moreover have "''title'' \<notin> set objectPrototypeNames"
    by (simp add: objectPrototypeNames_def)
  moreover have "toUpperChar (CHR ''t'') = CHR ''T''"
    by (simp add: toUpperChar_def)
  then have "camelToTitle E ''title'' = ''Title''"
    using camelToTitle_plain [OF f, of "CHR ''t''" "''itle''"]
    by (simp add: isAscii_def spaceBeforeCapitals_def isUpperAZ_def isLineTerminator_def
        isSpace_def whiteSpace_def)
  ultimately show ?thesis
    by (simp add: formatKeyName_def specialCases_get_def)
qed

lemma isHighlightKey_title: "caseFaithful E \<Longrightarrow> isHighlightKey E ''title''"
proof -
  assume f: "caseFaithful E"
  have a: "isAscii ''title''"
    by (simp add: isAscii_def)
  have "asciiLower ''title'' = ''title''"
    by (simp add: asciiLower_def toLowerChar_def)
  then show ?thesis
    unfolding isHighlightKey_ascii [OF f a] by simp
qed

lemma renderEntry_title:
  "caseFaithful E \<Longrightarrow>
   renderEntry E depth (''title'', JStr s) = primitiveField ''Title'' (emphasized s)"
  by (simp add: renderEntry_def formatKeyName_title renderPrimitive_Some isHighlightKey_title)

lemma renderObject_title_field:
  assumes "map_of props ''title'' = Some (JStr s)" and "caseFaithful E"
  shows "\<exists>xs ys.
     Object_entries props = xs @ (''title'', JStr s) # ys
     \<and> renderObject E props depth =
         fieldStack (concat (map (renderEntry E depth) xs)
           @ primitiveField ''Title'' (emphasized s)
           @ concat (map (renderEntry E depth) ys))"
proof -
  from assms have "(''title'', JStr s) \<in> set (Object_entries props)"
    by (simp add: set_Object_entries map_of_SomeD)
  then obtain xs ys where split: "Object_entries props = xs @ (''title'', JStr s) # ys"
    by (auto dest: split_list)
  then have "Object_entries props \<noteq> []"
    by simp
  then have "props \<noteq> []"
    by simp
  then have "renderObject E props depth =
      fieldStack (concat (map (renderEntry E depth) xs)
        @ primitiveField ''Title'' (emphasized s)
        @ concat (map (renderEntry E depth) ys))"
    using assms(2) by (simp add: renderObject_entries concat_filter_nonempty split renderEntry_title)
  with split show ?thesis
    by blast
qed

text \<open>
  C10. When the \<^verbatim>\<open>title\<close> field of a mapping is a string and the stack of the engine
  holds the nesting of the mapping, the assembled document holds that string twice,
  whatever the title argument: once between the tags of the \<^verbatim>\<open>h1\<close> heading of the
  page header, and once in the body, where the entry \<^verbatim>\<open>title\<close> stands among the other
  entries of the mapping, in the order of \<open>Object_entries\<close>, as the field with the label
  "Title" and the string as the text of its emphasized paragraph.
\<close>

theorem title_rendered_twice:
  \<open>map_of props ''title'' = Some (JStr s) \<Longrightarrow> caseFaithful E \<Longrightarrow>
   renderNesting (JObj props) \<le> maxNesting E \<Longrightarrow>
   \<exists>subtitle xs ys.
     Object_entries props = xs @ (''title'', JStr s) # ys
     \<and> generateHtmlFromData E today (JObj props) title =
         Inr (''\<newline>    <div style="font-family: 'Segoe UI', Tahoma, Geneva, Verdana, sans-serif; padding: 40px; color: #1f2937; max-width: 900px; margin: 0 auto; background-color: #ffffff;">\<newline>      \<newline>      <!-- Header -->\<newline>      <div style="border-bottom: 2px solid #e5e7eb; padding-bottom: 20px; margin-bottom: 30px;">\<newline>        ''
            @ (''<h1 style="color: #111827; font-size: 28px; font-weight: 700; margin: 0 0 10px 0;">''
              @ s
              @ ''</h1>'')
            @ ''\<newline>        ''
            @ subtitle
            @ ''\<newline>      </div>\<newline>\<newline>      <!-- Content -->\<newline>      ''
            @ (''\<newline>    <div style="display: flex; flex-direction: column; gap: 12px;">\<newline>      ''
              @ concat (map (renderEntry E 0) xs)
              @ ''\<newline>            <div>\<newline>              <p style="margin: 0 0 4px 0; color: #6b7280; font-size: 13px; text-transform: uppercase; letter-spacing: 0.5px; font-weight: 600;">''
              @ ''Title''
              @ ''</p>\<newline>              ''
              @ (''<p style="margin: 0; font-weight: 600; color: #111827; line-height: 1.6;">''
                @ s
                @ ''</p>'')
              @ ''\<newline>            </div>\<newline>          ''
              @ concat (map (renderEntry E 0) ys)
              @ ''\<newline>    </div>\<newline>  '')
            @ ''\<newline>\<newline>      <!-- Footer -->\<newline>      <div style="margin-top: 50px; text-align: center; border-top: 1px solid #e5e7eb; padding-top: 20px;">\<newline>        <p style="color: #9ca3af; font-size: 12px;">Generated by AI Report Generator ''
            @ [CHR 0xE2, CHR 0x80, CHR 0xA2]
            @ '' ''
            @ today
            @ ''</p>\<newline>      </div>\<newline>    </div>\<newline>  '')\<close>
proof -
  assume t: "map_of props ''title'' = Some (JStr s)" and f: "caseFaithful E"
    and n: "renderNesting (JObj props) \<le> maxNesting E"
  from t obtain subtitle
    where "extractTitles (JObj props) (case title of None \<Rightarrow> ''Report'' | Some t \<Rightarrow> t) = Inr (s, subtitle)"
    using extractTitles_title by blast
  with n have doc: "generateHtmlFromData E today (JObj props) title =
      Inr (page s (if subtitle \<noteq> [] then subtitleLine subtitle else []) (renderObject E props 0) today)"
    by (simp add: generateHtmlFromData_def bodyContent_def del: renderNesting.simps)
  from t f obtain xs ys
    where split: "Object_entries props = xs @ (''title'', JStr s) # ys"
      and body: "renderObject E props 0 =
        fieldStack (concat (map (renderEntry E 0) xs)
          @ primitiveField ''Title'' (emphasized s)
          @ concat (map (renderEntry E 0) ys))"
    using renderObject_title_field by blast
  have "generateHtmlFromData E today (JObj props) title =
      Inr (page s (if subtitle \<noteq> [] then subtitleLine subtitle else [])
        (fieldStack (concat (map (renderEntry E 0) xs)
          @ primitiveField ''Title'' (emphasized s)
          @ concat (map (renderEntry E 0) ys))) today)"
    unfolding doc body ..
  then have \<open>generateHtmlFromData E today (JObj props) title =
         Inr (''\<newline>    <div style="font-family: 'Segoe UI', Tahoma, Geneva, Verdana, sans-serif; padding: 40px; color: #1f2937; max-width: 900px; margin: 0 auto; background-color: #ffffff;">\<newline>      \<newline>      <!-- Header -->\<newline>      <div style="border-bottom: 2px solid #e5e7eb; padding-bottom: 20px; margin-bottom: 30px;">\<newline>        ''
            @ (''<h1 style="color: #111827; font-size: 28px; font-weight: 700; margin: 0 0 10px 0;">''
              @ s
              @ ''</h1>'')
            @ ''\<newline>        ''
            @ (if subtitle \<noteq> [] then subtitleLine subtitle else [])
            @ ''\<newline>      </div>\<newline>\<newline>      <!-- Content -->\<newline>      ''
            @ (''\<newline>    <div style="display: flex; flex-direction: column; gap: 12px;">\<newline>      ''
              @ concat (map (renderEntry E 0) xs)
              @ ''\<newline>            <div>\<newline>              <p style="margin: 0 0 4px 0; color: #6b7280; font-size: 13px; text-transform: uppercase; letter-spacing: 0.5px; font-weight: 600;">''
              @ ''Title''
              @ ''</p>\<newline>              ''
              @ (''<p style="margin: 0; font-weight: 600; color: #111827; line-height: 1.6;">''
                @ s
                @ ''</p>'')
              @ ''\<newline>            </div>\<newline>          ''
              @ concat (map (renderEntry E 0) ys)
              @ ''\<newline>    </div>\<newline>  '')
            @ ''\<newline>\<newline>      <!-- Footer -->\<newline>      <div style="margin-top: 50px; text-align: center; border-top: 1px solid #e5e7eb; padding-top: 20px;">\<newline>        <p style="color: #9ca3af; font-size: 12px;">Generated by AI Report Generator ''
            @ [CHR 0xE2, CHR 0x80, CHR 0xA2]
            @ '' ''
            @ today
            @ ''</p>\<newline>      </div>\<newline>    </div>\<newline>  '')\<close>
    by (simp add: page_def heading_def fieldStack_def primitiveField_def emphasized_def)
  with split show ?thesis
    by blast
qed

theorem title_rendered_twice_witness:
  \<open>\<exists>subtitle xs ys.
     Object_entries [(''title'', JStr ''Forklift Hazard''), (''notes'', JStr ''n'')] = xs @ (''title'', JStr ''Forklift Hazard'') # ys
     \<and> generateHtmlFromData sampleEngine ''11/3/2026'' (JObj [(''title'', JStr ''Forklift Hazard''), (''notes'', JStr ''n'')]) (Some ''Report'') =
         Inr (''\<newline>    <div style="font-family: 'Segoe UI', Tahoma, Geneva, Verdana, sans-serif; padding: 40px; color: #1f2937; max-width: 900px; margin: 0 auto; background-color: #ffffff;">\<newline>      \<newline>      <!-- Header -->\<newline>      <div style="border-bottom: 2px solid #e5e7eb; padding-bottom: 20px; margin-bottom: 30px;">\<newline>        ''
            @ (''<h1 style="color: #111827; font-size: 28px; font-weight: 700; margin: 0 0 10px 0;">''
              @ ''Forklift Hazard''
              @ ''</h1>'')
            @ ''\<newline>        ''
            @ subtitle
            @ ''\<newline>      </div>\<newline>\<newline>      <!-- Content -->\<newline>      ''
            @ (''\<newline>    <div style="display: flex; flex-direction: column; gap: 12px;">\<newline>      ''
              @ concat (map (renderEntry sampleEngine 0) xs)
              @ ''\<newline>            <div>\<newline>              <p style="margin: 0 0 4px 0; color: #6b7280; font-size: 13px; text-transform: uppercase; letter-spacing: 0.5px; font-weight: 600;">''
              @ ''Title''
              @ ''</p>\<newline>              ''
              @ (''<p style="margin: 0; font-weight: 600; color: #111827; line-height: 1.6;">''
                @ ''Forklift Hazard''
                @ ''</p>'')
              @ ''\<newline>            </div>\<newline>          ''
              @ concat (map (renderEntry sampleEngine 0) ys)
              @ ''\<newline>    </div>\<newline>  '')
            @ ''\<newline>\<newline>      <!-- Footer -->\<newline>      <div style="margin-top: 50px; text-align: center; border-top: 1px solid #e5e7eb; padding-top: 20px;">\<newline>        <p style="color: #9ca3af; font-size: 12px;">Generated by AI Report Generator ''
            @ [CHR 0xE2, CHR 0x80, CHR 0xA2]
            @ '' ''
            @ ''11/3/2026''
            @ ''</p>\<newline>      </div>\<newline>    </div>\<newline>  '')\<close>
proof -
  have m: "map_of [(''title'', JStr ''Forklift Hazard''), (''notes'', JStr ''n'')] ''title''
      = Some (JStr ''Forklift Hazard'')"
    by simp
  have n: "renderNesting (JObj [(''title'', JStr ''Forklift Hazard''), (''notes'', JStr ''n'')]) \<le> maxNesting sampleEngine"
    by (simp add: maximum_def)
  show ?thesis
    by (rule title_rendered_twice [OF m caseFaithful_sampleEngine n])
qed


section \<open>Stripping the code fence\<close>

lemma space_not_backtick: "isSpace c \<Longrightarrow> c \<noteq> ''`''"
  by (auto simp: isSpace_def whiteSpace_def)

lemma backtick_not_space: "\<not> isSpace ''`''"
  by (simp add: isSpace_def whiteSpace_def)

lemma units_fence: "units ''```'' = [''`'', ''`'', ''`'']"
  by (simp add: units_def)

lemma spacesThenFence_eq: "spacesThenFence t = startsWith (dropWhile isSpace t) (units ''```'')"
  by (induction t) (simp_all add: space_not_backtick units_fence)

lemma trimChars_trimEnd: "trimChars cs = trimEnd (dropWhile isSpace cs)"
  by (simp add: trimChars_def trimEnd_def)

lemma trimEnd_Nil: "trimEnd [] = []"
  by (simp add: trimEnd_def)

lemma trimEnd_Nil_iff: "trimEnd cs = [] \<longleftrightarrow> (\<forall>c \<in> set cs. isSpace c)"
  by (simp add: trimEnd_def dropWhile_eq_Nil_conv)

lemma trimEnd_Cons:
  "trimEnd (c # cs) = (if isSpace c \<and> trimEnd cs = [] then [] else c # trimEnd cs)"
  by (auto simp: trimEnd_def dropWhile_append dropWhile_eq_Nil_conv)

lemma dropWhile_trimEnd: "dropWhile isSpace (trimEnd cs) = trimEnd (dropWhile isSpace cs)"
proof (induction cs)
  case Nil
  then show ?case by (simp add: trimEnd_def)
next
  case (Cons c cs)
  show ?case
  proof (cases "isSpace c")
    case True
    show ?thesis
    proof (cases "trimEnd cs = []")
      case True
      then have "dropWhile isSpace cs = []"
        by (simp add: trimEnd_Nil_iff dropWhile_eq_Nil_conv)
      with \<open>isSpace c\<close> have "dropWhile isSpace (c # cs) = []"
        by simp
      then have "trimEnd (dropWhile isSpace (c # cs)) = []"
        by (simp only: trimEnd_Nil)
      moreover from True \<open>isSpace c\<close> have "trimEnd (c # cs) = []"
        by (simp add: trimEnd_Cons)
      ultimately show ?thesis
        by simp
    next
      case False
      with True Cons show ?thesis
        by (simp add: trimEnd_Cons)
    qed
  next
    case False
    then show ?thesis
      by (simp add: trimEnd_Cons)
  qed
qed

lemma trimEnd_idem: "trimEnd (trimEnd cs) = trimEnd cs"
  by (simp add: trimEnd_def)

lemma trimChars_idem: "trimChars (trimChars cs) = trimChars cs"
  by (simp add: trimChars_trimEnd dropWhile_trimEnd trimEnd_idem)

lemma fenceFreeChars_Cons:
  "fenceFreeChars (c # cs) \<longleftrightarrow>
     \<not> startsWith (c # cs @ units ''```'') (units ''```'') \<and> fenceFreeChars cs"
  by (simp add: fenceFreeChars_def list_all_iff Ball_def All_less_Suc2 del: startsWith.simps upt_Suc)

lemma fenceFreeChars_Nil: "fenceFreeChars []"
  by (simp add: fenceFreeChars_def)

lemma fenceFreeChars_dropWhile: "fenceFreeChars cs \<Longrightarrow> fenceFreeChars (dropWhile P cs)"
  by (induction cs) (simp_all add: fenceFreeChars_Cons del: startsWith.simps)

lemma lazyGroup_spaces:
  "\<forall>c \<in> set cs. isSpace c \<Longrightarrow> spacesThenFence (cs @ units ''```'')"
  by (induction cs) (simp_all add: units_fence)

lemma lazyGroup_fence:
  "fenceFreeChars inner \<Longrightarrow> lazyGroup (inner @ units ''```'') = Some (trimEnd inner)"
proof (induction inner)
  case Nil
  then show ?case by (simp add: trimEnd_def units_fence)
next
  case (Cons c cs)
  then have ih: "lazyGroup (cs @ units ''```'') = Some (trimEnd cs)"
    and nofence: "\<not> startsWith (c # cs @ units ''```'') (units ''```'')"
    by (simp_all add: fenceFreeChars_Cons del: startsWith.simps)
  show ?case
  proof (cases "isSpace c")
    case True
    show ?thesis
    proof (cases "trimEnd cs = []")
      case True
      then have "spacesThenFence (cs @ units ''```'')"
        by (simp add: trimEnd_Nil_iff lazyGroup_spaces)
      with True \<open>isSpace c\<close> show ?thesis
        by (simp add: trimEnd_Cons)
    next
      case False
      have "\<not> spacesThenFence (cs @ units ''```'')"
      proof
        assume "spacesThenFence (cs @ units ''```'')"
        then have "lazyGroup (cs @ units ''```'') = Some []"
          by (cases "cs @ units ''```''") simp_all
        with ih False show False
          by simp
      qed
      with \<open>isSpace c\<close> False ih nofence show ?thesis
        by (simp add: trimEnd_Cons del: startsWith.simps)
    qed
  next
    case False
    with nofence ih show ?thesis
      by (simp add: trimEnd_Cons del: startsWith.simps)
  qed
qed

lemma afterOpening_skip:
  "lazyGroup (dropWhile isSpace r) = Some g \<Longrightarrow> afterOpening r = Some g"
proof (induction r)
  case Nil
  then show ?case by simp
next
  case (Cons c cs)
  show ?case
  proof (cases "isSpace c")
    case True
    with Cons have "afterOpening cs = Some g"
      by simp
    with True show ?thesis
      by (simp del: lazyGroup.simps)
  next
    case False
    with Cons.prems show ?thesis
      by (simp del: lazyGroup.simps)
  qed
qed

lemma afterOpening_fence:
  "fenceFreeChars inner \<Longrightarrow> afterOpening (inner @ units ''```'') = Some (trimChars inner)"
proof -
  assume ff: "fenceFreeChars inner"
  have dw: "dropWhile isSpace (inner @ units ''```'') = dropWhile isSpace inner @ units ''```''"
    by (simp add: dropWhile_append units_fence backtick_not_space)
  from ff have "lazyGroup (dropWhile isSpace inner @ units ''```'')
      = Some (trimEnd (dropWhile isSpace inner))"
    by (intro lazyGroup_fence fenceFreeChars_dropWhile)
  then show ?thesis
    by (intro afterOpening_skip) (simp add: dw trimChars_trimEnd)
qed

lemma chars_fenced:
  "chars (''```html'' @ inner @ ''```'') = units ''```html'' @ chars inner @ units ''```''"
proof -
  have "chars (inner @ ''```'') = chars inner @ chars ''```''"
    by (rule chars_append) (simp add: isContinuation_def)
  moreover have "chars ''```'' = units ''```''"
    by (rule chars_ascii) (simp add: isAscii_def)
  ultimately show ?thesis
    by (simp add: isLead_def units_def)
qed

lemma includes_str_fenced: "includes_str (''```html'' @ rest) ''```html''"
  unfolding includes_str_iff by (metis append_Nil)

lemma stripHtmlFence_general:
  "fenceFree inner \<Longrightarrow>
   stripHtmlFence (Some (''```html'' @ inner @ ''```'')) =
     Some (if trim inner = [] then ''```html'' @ inner @ ''```'' else trim inner)"
proof -
  assume "fenceFree inner"
  then have "afterOpening (chars inner @ units ''```'') = Some (trimChars (chars inner))"
    unfolding fenceFree_def by (rule afterOpening_fence)
  then have "matchAt (units ''```html'' @ chars inner @ units ''```'') = Some (trimChars (chars inner))"
    by (simp add: matchAt_def units_def)
  then have "htmlMatch (units ''```html'' @ chars inner @ units ''```'') = Some (trimChars (chars inner))"
    by (simp add: units_def)
  then have m: "htmlMatch (chars (''```html'' @ inner @ ''```'')) = Some (trimChars (chars inner))"
    unfolding chars_fenced .
  have i: "includes_str (''```html'' @ inner @ ''```'') ''```html''"
    by (rule includes_str_fenced)
  have "stripHtmlFence (Some (''```html'' @ inner @ ''```'')) =
      (if concat (trimChars (chars inner)) \<noteq> []
       then Some (concat (trimChars (trimChars (chars inner))))
       else Some (''```html'' @ inner @ ''```''))"
    unfolding stripHtmlFence.simps m using i by simp
  then show ?thesis
    by (simp add: trimChars_idem trim_def)
qed

lemma fenceFree_Nil: "fenceFree []"
  by (simp add: fenceFree_def fenceFreeChars_def)

text \<open>
  C9, as amended. On a markup string wrapped as \<^verbatim>\<open>```html ... ```\<close>, whose inner text
  is free of fences, the stripping step yields the inner text with surrounding white space
  trimmed when that is not empty, and leaves the string as it is when the inner text is
  blank. On \<^verbatim>\<open>```html<div>X</div>```\<close> it yields \<^verbatim>\<open><div>X</div>\<close>.
\<close>

theorem stripHtmlFence_wrapped:
  "(fenceFree inner \<longrightarrow>
      stripHtmlFence (Some (''```html'' @ inner @ ''```'')) =
        Some (if trim inner = [] then ''```html'' @ inner @ ''```'' else trim inner))
   \<and> stripHtmlFence (Some ''```html<div>X</div>```'') = Some ''<div>X</div>''"
proof -
  have c: "chars ''<div>X</div>'' = units ''<div>X</div>''"
    by (rule chars_ascii) (simp add: isAscii_def)
  have "fenceFree ''<div>X</div>''"
    unfolding fenceFree_def c
    by (simp add: units_def fenceFreeChars_Cons fenceFreeChars_Nil)
  moreover have "trim ''<div>X</div>'' = ''<div>X</div>''"
    unfolding trim_def c by (simp add: units_def trimChars_def isSpace_def whiteSpace_def)
  ultimately have "stripHtmlFence (Some ''```html<div>X</div>```'') = Some ''<div>X</div>''"
    using stripHtmlFence_general [of "''<div>X</div>''"] by simp
  then show ?thesis
    using stripHtmlFence_general [of inner] by blast
qed

text \<open>
  The inner text of the witness begins with a no-break space (U+00A0) and ends with a
  line feed and a byte order mark (U+FEFF): the pattern and \<^verbatim>\<open>trim()\<close> remove all of
  them.
\<close>

theorem stripHtmlFence_wrapped_witness:
  "stripHtmlFence
     (Some (''```html'' @ [CHR 0xC2, CHR 0xA0] @ ''<p>Hi</p>\<newline>'' @ [CHR 0xEF, CHR 0xBB, CHR 0xBF] @ ''```''))
   = Some ''<p>Hi</p>''"
proof -
  have c: "chars ([CHR 0xC2, CHR 0xA0] @ ''<p>Hi</p>\<newline>'' @ [CHR 0xEF, CHR 0xBB, CHR 0xBF]) =
      [[CHR 0xC2, CHR 0xA0]] @ units ''<p>Hi</p>\<newline>'' @ [[CHR 0xEF, CHR 0xBB, CHR 0xBF]]"
    by (simp add: isLead_def isContinuation_def units_def)
  have "fenceFree ([CHR 0xC2, CHR 0xA0] @ ''<p>Hi</p>\<newline>'' @ [CHR 0xEF, CHR 0xBB, CHR 0xBF])"
    unfolding fenceFree_def c
    by (simp add: units_def fenceFreeChars_Cons fenceFreeChars_Nil)
  moreover have "trim ([CHR 0xC2, CHR 0xA0] @ ''<p>Hi</p>\<newline>'' @ [CHR 0xEF, CHR 0xBB, CHR 0xBF])
      = ''<p>Hi</p>''"
    unfolding trim_def c by (simp add: units_def trimChars_def isSpace_def whiteSpace_def)
  ultimately show ?thesis
    using stripHtmlFence_wrapped
      [of "[CHR 0xC2, CHR 0xA0] @ ''<p>Hi</p>\<newline>'' @ [CHR 0xEF, CHR 0xBB, CHR 0xBF]"]
    by simp
qed

text \<open>
  C9 as stated fails on a fence with nothing inside, and on one with only white space
  inside, here a no-break space: the captured group is empty, the handler keeps the
  string, and the result is the fenced string, not the empty inner text.
\<close>

theorem stripHtmlFence_blank_counterexample:
  "stripHtmlFence (Some ''```html```'') = Some ''```html```''
   \<and> stripHtmlFence (Some ''```html```'') \<noteq> Some (trim [])
   \<and> stripHtmlFence (Some (''```html'' @ [CHR 0xC2, CHR 0xA0] @ ''```''))
       = Some (''```html'' @ [CHR 0xC2, CHR 0xA0] @ ''```'')
   \<and> trim [CHR 0xC2, CHR 0xA0] = []"
proof -
  have "trim [] = []"
    by (simp add: trim_def trimChars_def)
  then have a: "stripHtmlFence (Some ''```html```'') = Some ''```html```''"
    using stripHtmlFence_general [of "[]"] fenceFree_Nil by simp
  have c: "chars [CHR 0xC2, CHR 0xA0] = [[CHR 0xC2, CHR 0xA0]]"
    by (simp add: isLead_def isContinuation_def)
  have "fenceFree [CHR 0xC2, CHR 0xA0]"
    unfolding fenceFree_def c
    by (simp add: units_def fenceFreeChars_Cons fenceFreeChars_Nil)
  moreover have t: "trim [CHR 0xC2, CHR 0xA0] = []"
    unfolding trim_def c by (simp add: trimChars_def isSpace_def whiteSpace_def)
  ultimately have "stripHtmlFence (Some (''```html'' @ [CHR 0xC2, CHR 0xA0] @ ''```''))
       = Some (''```html'' @ [CHR 0xC2, CHR 0xA0] @ ''```'')"
    using stripHtmlFence_general [of "[CHR 0xC2, CHR 0xA0]"] by simp
  with a t \<open>trim [] = []\<close> show ?thesis
    by simp
qed

end
